theory Spec2Isabelle
  imports Main "HOL-Library.AList"
begin

section \<open>Python string and path primitives used by the pipeline\<close>

text \<open>
  Python strings are modelled as \<^typ>\<open>string\<close>; a character stands for a code point
  below 256. The helpers below follow the CPython definitions of the methods the
  pipeline calls on strings and paths.
\<close>

definition endswith :: "string \<Rightarrow> string \<Rightarrow> bool" where
  \<comment> \<open>\<^verbatim>\<open>s.endswith(suf)\<close>: case-sensitive comparison of the last \<^verbatim>\<open>len(suf)\<close> characters.\<close>
  "endswith s suf =
     (length suf \<le> length s \<and> drop (length s - length suf) s = suf)"

definition py_isspace :: "char \<Rightarrow> bool" where
  \<comment> \<open>\<^verbatim>\<open>str.isspace\<close> on one character, for code points below 256.\<close>
  "py_isspace c =
     ((of_char c :: nat) \<in> {9, 10, 11, 12, 13, 28, 29, 30, 31, 32, 133, 160})"

definition lstrip :: "string \<Rightarrow> string" where
  "lstrip s = dropWhile py_isspace s"

definition rstrip :: "string \<Rightarrow> string" where
  "rstrip s = rev (dropWhile py_isspace (rev s))"

definition strip :: "string \<Rightarrow> string" where
  \<comment> \<open>\<^verbatim>\<open>s.strip()\<close> with no argument.\<close>
  "strip s = rstrip (lstrip s)"

fun py_join :: "string \<Rightarrow> string list \<Rightarrow> string" where
  \<comment> \<open>\<^verbatim>\<open>sep.join(xs)\<close>\<close>
  "py_join sep [] = []"
| "py_join sep [x] = x"
| "py_join sep (x # y # ys) = x @ sep @ py_join sep (y # ys)"

definition rfind :: "string \<Rightarrow> char \<Rightarrow> int" where
  \<comment> \<open>\<^verbatim>\<open>s.rfind(c)\<close>: the highest index of \<^verbatim>\<open>c\<close>, found by scanning from the end, or -1.\<close>
  "rfind s c =
     (if c \<in> set s
      then int (length s) - 1 - int (length (takeWhile (\<lambda>x. x \<noteq> c) (rev s)))
      else - 1)"

definition basename :: "string \<Rightarrow> string" where
  \<comment> \<open>\<^verbatim>\<open>os.path.basename\<close> (posixpath): \<^verbatim>\<open>i = p.rfind('/') + 1; return p[i:]\<close>\<close>
  "basename p = drop (nat (rfind p CHR ''/'' + 1)) p"

definition path_name :: "string \<Rightarrow> string" where
  \<comment> \<open>\<^verbatim>\<open>Path.name\<close> of a directory entry: the final component of its path string.\<close>
  "path_name p = basename p"

definition path_suffix :: "string \<Rightarrow> string" where
  \<comment> \<open>\<^verbatim>\<open>Path.suffix\<close>:
      \<^verbatim>\<open>i = name.rfind('.'); name[i:] if 0 < i < len(name) - 1 else ''\<close>\<close>
  "path_suffix p =
     (let name = path_name p; i = rfind name CHR ''.''
      in if 0 < i \<and> i < int (length name) - 1 then drop (nat i) name else [])"

definition path_stem :: "string \<Rightarrow> string" where
  \<comment> \<open>\<^verbatim>\<open>Path.stem\<close>:
      \<^verbatim>\<open>i = name.rfind('.'); name[:i] if 0 < i < len(name) - 1 else name\<close>\<close>
  "path_stem p =
     (let name = path_name p; i = rfind name CHR ''.''
      in if 0 < i \<and> i < int (length name) - 1 then take (nat i) name else name)"

fun py_split :: "char \<Rightarrow> string \<Rightarrow> string list" where
  \<comment> \<open>\<^verbatim>\<open>s.split(sep)\<close> for a one-character separator\<close>
  "py_split sep [] = [[]]"
| "py_split sep (c # cs) =
     (if c = sep then [] # py_split sep cs
      else (case py_split sep cs of
              [] \<Rightarrow> [[c]]
            | w # ws \<Rightarrow> (c # w) # ws))"

definition posix_join :: "string \<Rightarrow> string \<Rightarrow> string" where
  \<comment> \<open>\<^verbatim>\<open>posixpath.join(a, b)\<close>\<close>
  "posix_join a b =
     (if take 1 b = ''/'' then b
      else if a = [] \<or> last a = CHR ''/'' then a @ b
      else a @ ''/'' @ b)"

definition path_root :: "string \<Rightarrow> string" where
  \<comment> \<open>the root of \<^verbatim>\<open>posixpath.splitroot\<close>: exactly two leading slashes are kept\<close>
  "path_root p =
     (if take 1 p \<noteq> ''/'' then []
      else if take 1 (drop 1 p) \<noteq> ''/'' \<or> take 1 (drop 2 p) = ''/'' then ''/''
      else ''//'')"

definition path_parts :: "string \<Rightarrow> string list" where
  \<comment> \<open>the components pathlib keeps: empty and \<^verbatim>\<open>.\<close> components are dropped\<close>
  "path_parts p = filter (\<lambda>x. x \<noteq> [] \<and> x \<noteq> ''.'') (py_split CHR ''/'' p)"

definition path_str :: "string \<Rightarrow> string" where
  \<comment> \<open>\<^verbatim>\<open>str(Path(p))\<close> on a POSIX system\<close>
  "path_str p =
     (let s = path_root p @ py_join ''/'' (path_parts p)
      in if s = [] then ''.'' else s)"

definition path_join :: "string \<Rightarrow> string \<Rightarrow> string" where
  \<comment> \<open>\<^verbatim>\<open>str(Path(d) / name)\<close>: the segments are joined, then parsed\<close>
  "path_join d name = path_str (posix_join d name)"


section \<open>Errors and the external decoders\<close>

text \<open>
  The format decoders (pdfplumber, python-docx, pandas, python-pptx, ebooklib), the file
  system and the console are outside the repository. They are taken as parameters: each
  field of \<open>libs\<close> gives what the library call returns or the failure it raises.
  A failure coming from outside is a \<open>lib_error\<close>; the only error the pipeline
  constructs itself is \<open>UnsupportedFormat\<close> (the \<^verbatim>\<open>ValueError\<close> of
  \<^verbatim>\<open>preprocess_document\<close>).

  The values pandas puts into a data frame (integers, floats, \<^verbatim>\<open>nan\<close>, strings, dates,
  booleans) and its column labels (strings or numbers) are objects of classes outside the
  repository. Their types \<open>'c\<close> and \<open>'h\<close> are parameters, and \<open>cell_repr\<close> and
  \<open>label_repr\<close> give the \<^verbatim>\<open>repr\<close> of such an object. Equality of two labels
  stands for their equality as dictionary keys.
\<close>

datatype lib_error = ExtractionFailure | IOFailure | ConsoleFailure

datatype error = UnsupportedFormat string | LibFailure lib_error

record ('h, 'c) dataframe =
  columns :: "'h list"
  rows :: "'c list list"

record epub_item =
  item_type :: nat
  item_text :: "lib_error + string"

datatype write_result = Written | OpenFailed lib_error | DumpFailed nat lib_error

text \<open>
  The three console messages of the folder driver:
  \<^verbatim>\<open>Processing <name>...\<close>, the line \<^verbatim>\<open>Saved to <output file>\<close> that starts with the
  check mark U+2713, and the line \<^verbatim>\<open>Error processing <name>: <error>\<close> that starts with
  the ballot cross U+2717.
\<close>

datatype message = Processing string | Saved string | ErrorProcessing string error

record dir_entry =
  entry_path :: string
  entry_is_file :: "lib_error + bool"

record ('h, 'c) libs =
  pdfplumber_open :: "string \<Rightarrow> lib_error + (lib_error + string option) list"
  Document :: "string \<Rightarrow> lib_error + string list"
  read_excel :: "string \<Rightarrow> lib_error + (string \<times> ('h, 'c) dataframe) list"
  label_repr :: "'h \<Rightarrow> string"
  cell_repr :: "'c \<Rightarrow> string"
  Presentation :: "string \<Rightarrow> lib_error + string option list list"
  read_epub :: "string \<Rightarrow> lib_error + epub_item list"
  mkdir :: "string \<Rightarrow> lib_error + unit"
  iterdir :: "string \<Rightarrow> lib_error + dir_entry list"
  write_file :: "string \<Rightarrow> write_result"
  print :: "message \<Rightarrow> lib_error + unit"

definition ITEM_DOCUMENT :: nat where
  "ITEM_DOCUMENT = 9"


section \<open>Format extractors\<close>

fun pdf_pages_text :: "(lib_error + string option) list \<Rightarrow> string \<Rightarrow> lib_error + string" where
  \<comment> \<open>the loop over \<^verbatim>\<open>pdf.pages\<close>; a page is the outcome of \<^verbatim>\<open>page.extract_text()\<close>\<close>
  "pdf_pages_text [] text = Inr text"
| "pdf_pages_text (Inl e # pages) text = Inl e"
| "pdf_pages_text (Inr None # pages) text = pdf_pages_text pages text"
| "pdf_pages_text (Inr (Some page_text) # pages) text =
     (if page_text \<noteq> [] then pdf_pages_text pages (text @ page_text)
      else pdf_pages_text pages text)"

definition extract_text_from_pdf :: "('h, 'c) libs \<Rightarrow> string \<Rightarrow> lib_error + string" where
  "extract_text_from_pdf env pdf_path =
     (case pdfplumber_open env pdf_path of
        Inl e \<Rightarrow> Inl e
      | Inr pages \<Rightarrow>
          (case pdf_pages_text pages [] of
             Inl e \<Rightarrow> Inl e
           | Inr text \<Rightarrow> Inr (strip text)))"

definition extract_text_from_docx :: "('h, 'c) libs \<Rightarrow> string \<Rightarrow> lib_error + string" where
  "extract_text_from_docx env docx_path =
     (case Document env docx_path of
        Inl e \<Rightarrow> Inl e
      | Inr paragraphs \<Rightarrow> Inr (strip (py_join '' '' paragraphs)))"

definition py_dict :: "('k \<times> 'v) list \<Rightarrow> ('k \<times> 'v) list" where
  \<comment> \<open>\<^verbatim>\<open>dict(items)\<close>: a repeated key keeps its first position and its last value\<close>
  "py_dict items = foldl (\<lambda>d kv. AList.update (fst kv) (snd kv) d) [] items"

definition to_dict_records :: "('h, 'c) dataframe \<Rightarrow> ('h \<times> 'c) list list" where
  \<comment> \<open>\<^verbatim>\<open>df.to_dict(orient='records')\<close>: \<^verbatim>\<open>dict(zip(columns, row))\<close> for each row\<close>
  "to_dict_records df = map (\<lambda>row. py_dict (zip (columns df) row)) (rows df)"

definition extract_tables_from_excel ::
  "('h, 'c) libs \<Rightarrow> string \<Rightarrow> lib_error + (string \<times> ('h \<times> 'c) list list) list" where
  "extract_tables_from_excel env excel_path =
     (case read_excel env excel_path of
        Inl e \<Rightarrow> Inl e
      | Inr excel_data \<Rightarrow>
          Inr (foldl (\<lambda>tables (sheet, df). AList.update sheet (to_dict_records df) tables)
                 [] excel_data))"

fun shapes_text :: "string option list \<Rightarrow> string \<Rightarrow> string" where
  \<comment> \<open>the loop over \<^verbatim>\<open>slide.shapes\<close>; \<open>None\<close> is a shape without a \<^verbatim>\<open>text\<close> attribute\<close>
  "shapes_text [] text = text"
| "shapes_text (None # shapes) text = shapes_text shapes text"
| "shapes_text (Some shape_text # shapes) text =
     shapes_text shapes (text @ shape_text @ [CHR 0x0A])"

fun slides_text :: "string option list list \<Rightarrow> string \<Rightarrow> string" where
  "slides_text [] text = text"
| "slides_text (slide # slides) text = slides_text slides (shapes_text slide text)"

definition extract_text_from_ppt :: "('h, 'c) libs \<Rightarrow> string \<Rightarrow> lib_error + string" where
  "extract_text_from_ppt env ppt_path =
     (case Presentation env ppt_path of
        Inl e \<Rightarrow> Inl e
      | Inr slides \<Rightarrow> Inr (strip (slides_text slides [])))"

fun epub_items_text :: "epub_item list \<Rightarrow> string \<Rightarrow> lib_error + string" where
  \<comment> \<open>the loop over \<^verbatim>\<open>book.get_items()\<close>; \<open>item_text\<close> is the outcome of
      \<^verbatim>\<open>item.get_content().decode('utf-8')\<close>, evaluated for document items only\<close>
  "epub_items_text [] text = Inr text"
| "epub_items_text (item # items) text =
     (if item_type item = ITEM_DOCUMENT then
        (case item_text item of
           Inl e \<Rightarrow> Inl e
         | Inr t \<Rightarrow> epub_items_text items (text @ t))
      else epub_items_text items text)"

definition extract_text_from_epub :: "('h, 'c) libs \<Rightarrow> string \<Rightarrow> lib_error + string" where
  "extract_text_from_epub env epub_path =
     (case read_epub env epub_path of
        Inl e \<Rightarrow> Inl e
      | Inr items \<Rightarrow>
          (case epub_items_text items [] of
             Inl e \<Rightarrow> Inl e
           | Inr text \<Rightarrow> Inr (strip text)))"


section \<open>Normalisation and enrichment\<close>

text \<open>
  A Python dictionary with string keys is an association list in insertion order;
  \<^verbatim>\<open>d[k] = v\<close> is \<^const>\<open>AList.update\<close>, which replaces the value of an existing key
  in place and appends a new key at the end. Mutation of the record in place is modelled
  by returning the updated record.
\<close>

record normalized =
  file_type :: string
  content :: string
  metadata :: "(string \<times> string) list"

definition normalize_to_json ::
  "string \<Rightarrow> string \<Rightarrow> (string \<times> string) list \<Rightarrow> normalized" where
  "normalize_to_json ft c md = \<lparr>file_type = ft, content = c, metadata = md\<rparr>"

fun truthy :: "string option \<Rightarrow> bool" where
  \<comment> \<open>truth value of an optional string argument: \<^verbatim>\<open>None\<close> and \<^verbatim>\<open>""\<close> are false\<close>
  "truthy None = False"
| "truthy (Some s) = (s \<noteq> [])"

definition enrich_with_metadata ::
  "normalized \<Rightarrow> string option \<Rightarrow> string option \<Rightarrow> string option \<Rightarrow> normalized" where
  "enrich_with_metadata data author date source =
     (let data1 = (if truthy author
                   then data\<lparr>metadata := AList.update ''author'' (the author) (metadata data)\<rparr>
                   else data);
          data2 = (if truthy date
                   then data1\<lparr>metadata := AList.update ''date'' (the date) (metadata data1)\<rparr>
                   else data1);
          data3 = (if truthy source
                   then data2\<lparr>metadata := AList.update ''source'' (the source) (metadata data2)\<rparr>
                   else data2)
      in data3)"


section \<open>String conversion of the spreadsheet tables\<close>

text \<open>
  \<^verbatim>\<open>str(tables)\<close> is the \<^verbatim>\<open>repr\<close> of a dictionary of lists of dictionaries. The
  functions below follow CPython's \<^verbatim>\<open>repr\<close> of \<^verbatim>\<open>str\<close> (the sheet names), \<^verbatim>\<open>list\<close>
  and \<^verbatim>\<open>dict\<close>; the \<^verbatim>\<open>repr\<close> of a column label and of a cell value are the
  parameters \<open>repr_label\<close> and \<open>repr_cell\<close>. \<open>py_scalar\<close> with \<open>repr_scalar\<close> is
  the instance for cells that are Python integers or strings.
\<close>

definition hex_digit :: "nat \<Rightarrow> char" where
  "hex_digit n = ''0123456789abcdef'' ! (n mod 16)"

function str_nat :: "nat \<Rightarrow> string" where
  "str_nat n =
     (if n < 10 then [hex_digit n] else str_nat (n div 10) @ [hex_digit (n mod 10)])"
  by pat_completeness auto
termination
  by (relation "measure id") auto

definition repr_int :: "int \<Rightarrow> string" where
  "repr_int i = (if i < 0 then ''-'' @ str_nat (nat (- i)) else str_nat (nat i))"

definition py_isprintable :: "char \<Rightarrow> bool" where
  \<comment> \<open>\<^verbatim>\<open>str.isprintable\<close> on one character, for code points below 256\<close>
  "py_isprintable c =
     (let n = (of_char c :: nat)
      in 32 \<le> n \<and> n \<noteq> 127 \<and> \<not> (128 \<le> n \<and> n \<le> 160) \<and> n \<noteq> 173)"

definition repr_char :: "char \<Rightarrow> char \<Rightarrow> string" where
  \<comment> \<open>one character inside \<^verbatim>\<open>repr(s)\<close>, for the chosen quote character\<close>
  "repr_char quote c =
     (if c = quote \<or> c = CHR 0x5C then [CHR 0x5C, c]
      else if c = CHR 0x09 then [CHR 0x5C, CHR ''t'']
      else if c = CHR 0x0A then [CHR 0x5C, CHR ''n'']
      else if c = CHR 0x0D then [CHR 0x5C, CHR ''r'']
      else if \<not> py_isprintable c then
        [CHR 0x5C, CHR ''x'', hex_digit (of_char c div 16), hex_digit (of_char c mod 16)]
      else [c])"

definition repr_str :: "string \<Rightarrow> string" where
  \<comment> \<open>single quotes, unless the string has a single quote and no double quote\<close>
  "repr_str s =
     (let quote = (if CHR 0x27 \<in> set s \<and> CHR 0x22 \<notin> set s then CHR 0x22 else CHR 0x27)
      in quote # concat (map (repr_char quote) s) @ [quote])"

datatype py_scalar = PyInt int | PyStr string

fun repr_scalar :: "py_scalar \<Rightarrow> string" where
  "repr_scalar (PyInt i) = repr_int i"
| "repr_scalar (PyStr s) = repr_str s"

definition repr_record :: "('h \<Rightarrow> string) \<Rightarrow> ('c \<Rightarrow> string) \<Rightarrow> ('h \<times> 'c) list \<Rightarrow> string" where
  "repr_record repr_label repr_cell r =
     ''{'' @ py_join '', '' (map (\<lambda>kv. repr_label (fst kv) @ '': '' @ repr_cell (snd kv)) r)
       @ ''}''"

definition repr_records ::
  "('h \<Rightarrow> string) \<Rightarrow> ('c \<Rightarrow> string) \<Rightarrow> ('h \<times> 'c) list list \<Rightarrow> string" where
  "repr_records repr_label repr_cell rs =
     ''['' @ py_join '', '' (map (repr_record repr_label repr_cell) rs) @ '']''"

definition str_tables ::
  "('h \<Rightarrow> string) \<Rightarrow> ('c \<Rightarrow> string) \<Rightarrow> (string \<times> ('h \<times> 'c) list list) list \<Rightarrow> string" where
  "str_tables repr_label repr_cell tables =
     ''{'' @ py_join '', ''
              (map (\<lambda>kv. repr_str (fst kv) @ '': '' @ repr_records repr_label repr_cell (snd kv))
                 tables)
       @ ''}''"


section \<open>The single-document pipeline\<close>

definition from_lib :: "lib_error + 'a \<Rightarrow> error + 'a" where
  \<comment> \<open>a library failure propagates unchanged\<close>
  "from_lib r = (case r of Inl e \<Rightarrow> Inl (LibFailure e) | Inr x \<Rightarrow> Inr x)"

definition preprocess_document :: "('h, 'c) libs \<Rightarrow> string \<Rightarrow> error + normalized" where
  "preprocess_document env file_path =
     (let extracted =
        (if endswith file_path ''.pdf'' then
           map_sum id (\<lambda>text. (text, ''PDF'')) (from_lib (extract_text_from_pdf env file_path))
         else if endswith file_path ''.docx'' then
           map_sum id (\<lambda>text. (text, ''Word'')) (from_lib (extract_text_from_docx env file_path))
         else if endswith file_path ''.xlsx'' then
           map_sum id (\<lambda>tables. (str_tables (label_repr env) (cell_repr env) tables, ''Excel''))
             (from_lib (extract_tables_from_excel env file_path))
         else if endswith file_path ''.pptx'' then
           map_sum id (\<lambda>text. (text, ''PowerPoint''))
             (from_lib (extract_text_from_ppt env file_path))
         else if endswith file_path ''.epub'' then
           map_sum id (\<lambda>text. (text, ''EPUB'')) (from_lib (extract_text_from_epub env file_path))
         else Inl (UnsupportedFormat file_path))
      in case extracted of
           Inl e \<Rightarrow> Inl e
         | Inr (text, ft) \<Rightarrow>
             Inr (normalize_to_json ft text
                    [(''author'', ''Unknown''),
                     (''date'', ''2023-10-01''),
                     (''source'', basename file_path)]))"


section \<open>JSON serialisation of a record\<close>

text \<open>
  \<^verbatim>\<open>json.dump(result, f, indent=4, ensure_ascii=False)\<close> on a dictionary whose values are
  strings or dictionaries of strings. \<open>py_encode_basestring\<close> is the string encoder
  used when \<^verbatim>\<open>ensure_ascii\<close> is false: it escapes the backslash, the double quote and the
  control characters below 0x20, and copies everything else.
\<close>

datatype json = JString string | JObject "(string \<times> json) list"

definition escape_char :: "char \<Rightarrow> string" where
  "escape_char c =
     (if c = CHR 0x5C then [CHR 0x5C, CHR 0x5C]
      else if c = CHR 0x22 then [CHR 0x5C, CHR 0x22]
      else if c = CHR 0x08 then [CHR 0x5C, CHR ''b'']
      else if c = CHR 0x0C then [CHR 0x5C, CHR ''f'']
      else if c = CHR 0x0A then [CHR 0x5C, CHR ''n'']
      else if c = CHR 0x0D then [CHR 0x5C, CHR ''r'']
      else if c = CHR 0x09 then [CHR 0x5C, CHR ''t'']
      else if (of_char c :: nat) < 32 then
        [CHR 0x5C, CHR ''u'', CHR ''0'', CHR ''0'',
         hex_digit (of_char c div 16), hex_digit (of_char c mod 16)]
      else [c])"

definition py_encode_basestring :: "string \<Rightarrow> string" where
  "py_encode_basestring s = CHR 0x22 # concat (map escape_char s) @ [CHR 0x22]"

definition newline_indent :: "nat \<Rightarrow> string" where
  \<comment> \<open>\<^verbatim>\<open>'\n' + indent * level\<close> with an indent of four spaces\<close>
  "newline_indent level = CHR 0x0A # replicate (4 * level) CHR '' ''"

fun json_encode :: "nat \<Rightarrow> json \<Rightarrow> string" where
  "json_encode level (JString s) = py_encode_basestring s"
| "json_encode level (JObject dct) =
     (if dct = [] then ''{}''
      else ''{'' @ newline_indent (level + 1)
        @ py_join ('','' @ newline_indent (level + 1))
            (map (\<lambda>kv. py_encode_basestring (fst kv) @ '': ''
                          @ json_encode (level + 1) (snd kv)) dct)
        @ newline_indent level @ ''}'')"

definition to_json :: "normalized \<Rightarrow> json" where
  \<comment> \<open>the dictionary built by \<^verbatim>\<open>normalize_to_json\<close>, as a JSON value\<close>
  "to_json r =
     JObject [(''file_type'', JString (file_type r)),
              (''content'', JString (content r)),
              (''metadata'', JObject (map (\<lambda>kv. (fst kv, JString (snd kv))) (metadata r)))]"

definition json_dumps :: "normalized \<Rightarrow> string" where
  "json_dumps r = json_encode 0 (to_json r)"


section \<open>Parsing the JSON text back\<close>

text \<open>
  The reader follows \<^verbatim>\<open>json.loads\<close> (the decoder's \<^verbatim>\<open>py_scanstring\<close>, \<^verbatim>\<open>JSONObject\<close>
  and \<^verbatim>\<open>scan_once\<close>) on strings and objects, the two kinds of value the encoder above
  produces; it rejects any other value, and a \<^verbatim>\<open>\u\<close> escape of a code point above 255.
  An object is built with \<^verbatim>\<open>dict(pairs)\<close>, so a repeated key keeps its last value. The
  recursion of \<open>scan_once\<close> is bounded by a counter that \<open>json_loads\<close> starts above
  the length of the text; every recursive call has consumed at least one character.
\<close>

definition hex_value :: "char \<Rightarrow> nat option" where
  "hex_value c =
     (let n = (of_char c :: nat)
      in if 48 \<le> n \<and> n \<le> 57 then Some (n - 48)
         else if 97 \<le> n \<and> n \<le> 102 then Some (n - 87)
         else if 65 \<le> n \<and> n \<le> 70 then Some (n - 55)
         else None)"

definition decode_uXXXX :: "string \<Rightarrow> char option" where
  "decode_uXXXX esc =
     (case map hex_value esc of
        [Some a, Some b, Some c, Some d] \<Rightarrow>
          (let uni = ((a * 16 + b) * 16 + c) * 16 + d
           in if uni < 256 then Some (char_of uni) else None)
      | _ \<Rightarrow> None)"

definition BACKSLASH :: "char \<Rightarrow> char option" where
  "BACKSLASH esc =
     (if esc = CHR 0x22 then Some (CHR 0x22)
      else if esc = CHR 0x5C then Some (CHR 0x5C)
      else if esc = CHR ''/'' then Some (CHR ''/'')
      else if esc = CHR ''b'' then Some (CHR 0x08)
      else if esc = CHR ''f'' then Some (CHR 0x0C)
      else if esc = CHR ''n'' then Some (CHR 0x0A)
      else if esc = CHR ''r'' then Some (CHR 0x0D)
      else if esc = CHR ''t'' then Some (CHR 0x09)
      else None)"

function scanstring :: "string \<Rightarrow> (string \<times> string) option" where
  "scanstring [] = None"
| "scanstring (c # cs) =
     (if c = CHR 0x22 then Some ([], cs)
      else if c = CHR 0x5C then
        (case cs of
           [] \<Rightarrow> None
         | esc # rest \<Rightarrow>
             if esc = CHR ''u'' then
               (case decode_uXXXX (take 4 rest) of
                  None \<Rightarrow> None
                | Some ch \<Rightarrow>
                    (case scanstring (drop 4 rest) of
                       None \<Rightarrow> None
                     | Some (t, s') \<Rightarrow> Some (ch # t, s')))
             else
               (case BACKSLASH esc of
                  None \<Rightarrow> None
                | Some ch \<Rightarrow>
                    (case scanstring rest of
                       None \<Rightarrow> None
                     | Some (t, s') \<Rightarrow> Some (ch # t, s'))))
      else if (of_char c :: nat) < 32 then None
      else (case scanstring cs of
              None \<Rightarrow> None
            | Some (t, s') \<Rightarrow> Some (c # t, s')))"
  by pat_completeness auto
termination
  by (relation "measure length") auto

definition skip_ws :: "string \<Rightarrow> string" where
  "skip_ws s = dropWhile (\<lambda>c. c \<in> set [CHR '' '', CHR 0x09, CHR 0x0A, CHR 0x0D]) s"

definition dict_of_pairs :: "(string \<times> json) list \<Rightarrow> (string \<times> json) list" where
  "dict_of_pairs pairs = foldl (\<lambda>d kv. AList.update (fst kv) (snd kv) d) [] pairs"

fun scan_once :: "nat \<Rightarrow> string \<Rightarrow> (json \<times> string) option"
  and json_object :: "nat \<Rightarrow> string \<Rightarrow> (json \<times> string) option"
  and json_pairs :: "nat \<Rightarrow> (string \<times> json) list \<Rightarrow> string \<Rightarrow> (json \<times> string) option"
  where
  "scan_once 0 s = None"
| "scan_once (Suc n) [] = None"
| "scan_once (Suc n) (c # cs) =
     (if c = CHR 0x22 then
        (case scanstring cs of
           None \<Rightarrow> None
         | Some (t, rest) \<Rightarrow> Some (JString t, rest))
      else if c = CHR ''{'' then json_object n cs
      else None)"
| "json_object 0 s = None"
| "json_object (Suc n) s =
     (case skip_ws s of
        [] \<Rightarrow> None
      | c # cs \<Rightarrow>
          if c = CHR ''}'' then Some (JObject [], cs)
          else if c = CHR 0x22 then json_pairs n [] cs
          else None)"
| "json_pairs 0 pairs s = None"
| "json_pairs (Suc n) pairs s =
     (case scanstring s of
        None \<Rightarrow> None
      | Some (key, s1) \<Rightarrow>
          (case skip_ws s1 of
             [] \<Rightarrow> None
           | c1 # s2 \<Rightarrow>
               if c1 \<noteq> CHR '':'' then None
               else
                 (case scan_once n (skip_ws s2) of
                    None \<Rightarrow> None
                  | Some (v, s3) \<Rightarrow>
                      (case skip_ws s3 of
                         [] \<Rightarrow> None
                       | c3 # s4 \<Rightarrow>
                           if c3 = CHR ''}'' then
                             Some (JObject (dict_of_pairs (pairs @ [(key, v)])), s4)
                           else if c3 = CHR '','' then
                             (case skip_ws s4 of
                                [] \<Rightarrow> None
                              | c5 # s5 \<Rightarrow>
                                  if c5 = CHR 0x22
                                  then json_pairs n (pairs @ [(key, v)]) s5
                                  else None)
                           else None))))"

definition json_loads :: "string \<Rightarrow> json option" where
  "json_loads s =
     (case scan_once (Suc (length s)) (skip_ws s) of
        None \<Rightarrow> None
      | Some (obj, rest) \<Rightarrow> if skip_ws rest = [] then Some obj else None)"


section \<open>The folder driver\<close>

text \<open>
  The driver has two effects besides its result: the files it leaves in the output
  directory and the lines it prints. \<open>written\<close> lists the files in order, each with the
  text that reached it: \<open>write_file\<close> tells, for an output path, whether \<^verbatim>\<open>open\<close>
  fails (nothing is written), \<^verbatim>\<open>json.dump\<close> fails after some characters (the file keeps
  them), or the whole text is written. \<open>printed\<close> lists the messages that reached the
  console; \<open>print\<close> tells whether a message can be printed (a console whose encoding
  lacks a character of the message raises \<^verbatim>\<open>UnicodeEncodeError\<close>).

  \<open>try_block\<close> is the body of the \<^verbatim>\<open>try\<close> statement: it returns the state it reached
  and the exception that ended it, if any. \<open>process_files\<close> is the loop: the test
  \<^verbatim>\<open>file.is_file()\<close> and the \<^verbatim>\<open>print\<close> of the handler are outside the \<^verbatim>\<open>try\<close>, so
  a failure of either ends the loop with that exception.
\<close>

definition extensions :: "string list" where
  "extensions = [''.pdf'', ''.docx'', ''.xlsx'', ''.pptx'', ''.epub'']"

record run_state =
  processed_files :: "string list"
  written :: "(string \<times> string) list"
  printed :: "message list"

definition try_block ::
  "('h, 'c) libs \<Rightarrow> string \<Rightarrow> dir_entry \<Rightarrow> run_state \<Rightarrow> run_state \<times> error option" where
  "try_block env output_folder file st =
     (case print env (Processing (path_name (entry_path file))) of
        Inl e \<Rightarrow> (st, Some (LibFailure e))
      | Inr _ \<Rightarrow>
          (let st1 = st\<lparr>printed := printed st @ [Processing (path_name (entry_path file))]\<rparr>
           in case preprocess_document env (entry_path file) of
                Inl e \<Rightarrow> (st1, Some e)
              | Inr result \<Rightarrow>
                  (let output_file =
                         path_join output_folder
                           (path_stem (entry_path file) @ ''_normalized.json'')
                   in case write_file env output_file of
                        OpenFailed e \<Rightarrow> (st1, Some (LibFailure e))
                      | DumpFailed n e \<Rightarrow>
                          (st1\<lparr>written :=
                                 written st1 @ [(output_file, take n (json_dumps result))]\<rparr>,
                           Some (LibFailure e))
                      | Written \<Rightarrow>
                          (let st2 = st1\<lparr>written :=
                                           written st1 @ [(output_file, json_dumps result)]\<rparr>
                           in case print env (Saved output_file) of
                                Inl e \<Rightarrow> (st2, Some (LibFailure e))
                              | Inr _ \<Rightarrow>
                                  (st2\<lparr>printed := printed st2 @ [Saved output_file],
                                       processed_files :=
                                         processed_files st2 @ [path_name (entry_path file)]\<rparr>,
                                   None)))))"

fun process_files ::
  "('h, 'c) libs \<Rightarrow> string \<Rightarrow> dir_entry list \<Rightarrow> run_state \<Rightarrow> run_state \<times> lib_error option"
  where
  "process_files env output_folder [] st = (st, None)"
| "process_files env output_folder (file # files) st =
     (case entry_is_file file of
        Inl e \<Rightarrow> (st, Some e)
      | Inr is_file \<Rightarrow>
          if is_file \<and> path_suffix (entry_path file) \<in> set extensions then
            (case try_block env output_folder file st of
               (st1, None) \<Rightarrow> process_files env output_folder files st1
             | (st1, Some e) \<Rightarrow>
                 (case print env (ErrorProcessing (path_name (entry_path file)) e) of
                    Inl e' \<Rightarrow> (st1, Some e')
                  | Inr _ \<Rightarrow>
                      process_files env output_folder files
                        (st1\<lparr>printed :=
                               printed st1
                                 @ [ErrorProcessing (path_name (entry_path file)) e]\<rparr>)))
          else process_files env output_folder files st)"

definition no_effects :: run_state where
  "no_effects = \<lparr>processed_files = [], written = [], printed = []\<rparr>"

definition process_folder ::
  "('h, 'c) libs \<Rightarrow> string \<Rightarrow> string
     \<Rightarrow> (lib_error + string list) \<times> (string \<times> string) list \<times> message list" where
  \<comment> \<open>the value returned or the exception raised, the files written, the lines printed\<close>
  "process_folder env folder_path output_folder =
     (case mkdir env output_folder of
        Inl e \<Rightarrow> (Inl e, [], [])
      | Inr _ \<Rightarrow>
          (case iterdir env folder_path of
             Inl e \<Rightarrow> (Inl e, [], [])
           | Inr files \<Rightarrow>
               (case process_files env output_folder files no_effects of
                  (st, None) \<Rightarrow> (Inr (processed_files st), written st, printed st)
                | (st, Some e) \<Rightarrow> (Inl e, written st, printed st))))"


section \<open>A sample environment\<close>

text \<open>
  A concrete environment for evaluating the pipeline: a folder \<^verbatim>\<open>in\<close> holding a valid
  Word document and a PDF that the decoder rejects, decoders that return small
  documents for every other path, an output directory that accepts every write and a
  console that can print every message. \<open>ascii_console\<close> is a console whose encoding is
  ASCII: it accepts the first message for an ASCII file name and rejects the two others,
  which start with U+2713 and U+2717.
\<close>

definition sample_libs :: "(string, py_scalar) libs" where
  "sample_libs =
     \<lparr>pdfplumber_open =
        (\<lambda>p. if p = ''in/broken.pdf'' then Inl ExtractionFailure
             else Inr [Inr (Some '' Page one''), Inr None, Inr (Some '' and two. '')]),
      Document = (\<lambda>p. Inr [''Hello'', ''World'']),
      read_excel =
        (\<lambda>p. if p = ''in/names.xlsx''
             then Inr [(''People'',
                        \<lparr>columns = [''name'', ''age''], rows = [[PyStr ''Ann'', PyInt 41]]\<rparr>),
                       (''Empty'', \<lparr>columns = [], rows = []\<rparr>)]
             else Inr [(''Sheet1'',
                        \<lparr>columns = [''A'', ''B''],
                         rows = [[PyInt 1, PyInt 2], [PyInt 3, PyInt 4]]\<rparr>)]),
      label_repr = repr_str,
      cell_repr = repr_scalar,
      Presentation = (\<lambda>p. Inr [[Some ''Title'', None], [Some ''Body'']]),
      read_epub =
        (\<lambda>p. Inr [\<lparr>item_type = 9, item_text = Inr ''<p>Chapter</p> ''\<rparr>,
                   \<lparr>item_type = 1, item_text = Inl ExtractionFailure\<rparr>]),
      mkdir = (\<lambda>d. Inr ()),
      iterdir =
        (\<lambda>d. Inr [\<lparr>entry_path = ''in/report.docx'', entry_is_file = Inr True\<rparr>,
                   \<lparr>entry_path = ''in/broken.pdf'', entry_is_file = Inr True\<rparr>]),
      write_file = (\<lambda>p. Written),
      print = (\<lambda>m. Inr ())\<rparr>"

fun ascii_console :: "message \<Rightarrow> lib_error + unit" where
  "ascii_console (Processing name) =
     (if list_all (\<lambda>c. (of_char c :: nat) < 128) name then Inr () else Inl ConsoleFailure)"
| "ascii_console (Saved output_file) = Inl ConsoleFailure"
| "ascii_console (ErrorProcessing name e) = Inl ConsoleFailure"

definition ascii_libs :: "(string, py_scalar) libs" where
  \<comment> \<open>the sample environment on an ASCII console\<close>
  "ascii_libs = sample_libs\<lparr>print := ascii_console\<rparr>"

definition ascii_libs_pdf_first :: "(string, py_scalar) libs" where
  \<comment> \<open>the same, with the folder listed in the other order\<close>
  "ascii_libs_pdf_first =
     ascii_libs\<lparr>iterdir :=
       (\<lambda>d. Inr [\<lparr>entry_path = ''in/broken.pdf'', entry_is_file = Inr True\<rparr>,
                  \<lparr>entry_path = ''in/report.docx'', entry_is_file = Inr True\<rparr>])\<rparr>"


section \<open>Predicates used in the statements\<close>

definition no_outer_whitespace :: "string \<Rightarrow> bool" where
  \<comment> \<open>the string neither starts nor ends with a whitespace character\<close>
  "no_outer_whitespace s = (s = [] \<or> (\<not> py_isspace (hd s) \<and> \<not> py_isspace (last s)))"

definition sample_record :: normalized where
  "sample_record =
     \<lparr>file_type = ''Word'', content = ''Hello World'',
      metadata = [(''author'', ''Unknown''), (''date'', ''2023-10-01''),
                  (''source'', ''report.docx'')]\<rparr>"

text \<open>
  \<open>fuel_needed\<close> bounds the depth of calls \<open>scan_once\<close> makes on the encoding of a
  value; \<open>unique_keys\<close> holds of the JSON values that come from Python dictionaries;
  \<open>members\<close> is the text between the braces of an encoded object.
\<close>

fun fuel_needed :: "json \<Rightarrow> nat" where
  "fuel_needed (JString s) = 1"
| "fuel_needed (JObject dct) =
     Suc (Suc (sum_list (map (\<lambda>kv. Suc (fuel_needed (snd kv))) dct)))"

fun unique_keys :: "json \<Rightarrow> bool" where
  "unique_keys (JString s) = True"
| "unique_keys (JObject dct) =
     (distinct (map fst dct) \<and> list_all (\<lambda>kv. unique_keys (snd kv)) dct)"

definition members :: "nat \<Rightarrow> (string \<times> json) list \<Rightarrow> string" where
  "members level dct =
     py_join ('','' @ newline_indent level)
       (map (\<lambda>kv. py_encode_basestring (fst kv) @ '': '' @ json_encode level (snd kv)) dct)"

text \<open>
  What one directory entry contributes to a run in which nothing escapes the loop: whether
  its name is reported, which file it leaves in the output directory, and which lines it
  prints.
\<close>

definition output_path :: "string \<Rightarrow> dir_entry \<Rightarrow> string" where
  "output_path output_folder file =
     path_join output_folder (path_stem (entry_path file) @ ''_normalized.json'')"

definition is_supported_file :: "dir_entry \<Rightarrow> bool" where
  "is_supported_file file =
     (entry_is_file file = Inr True \<and> path_suffix (entry_path file) \<in> set extensions)"

definition file_succeeds :: "('h, 'c) libs \<Rightarrow> string \<Rightarrow> dir_entry \<Rightarrow> bool" where
  "file_succeeds env output_folder file =
     (is_supported_file file \<and>
      (case preprocess_document env (entry_path file) of
         Inl e \<Rightarrow> False
       | Inr result \<Rightarrow> write_file env (output_path output_folder file) = Written))"

definition file_output ::
  "('h, 'c) libs \<Rightarrow> string \<Rightarrow> dir_entry \<Rightarrow> (string \<times> string) list" where
  "file_output env output_folder file =
     (if is_supported_file file then
        (case preprocess_document env (entry_path file) of
           Inl e \<Rightarrow> []
         | Inr result \<Rightarrow>
             (case write_file env (output_path output_folder file) of
                Written \<Rightarrow> [(output_path output_folder file, json_dumps result)]
              | OpenFailed e \<Rightarrow> []
              | DumpFailed n e \<Rightarrow>
                  [(output_path output_folder file, take n (json_dumps result))]))
      else [])"

definition file_messages :: "('h, 'c) libs \<Rightarrow> string \<Rightarrow> dir_entry \<Rightarrow> message list" where
  "file_messages env output_folder file =
     (if is_supported_file file then
        Processing (path_name (entry_path file)) #
        (case preprocess_document env (entry_path file) of
           Inl e \<Rightarrow> [ErrorProcessing (path_name (entry_path file)) e]
         | Inr result \<Rightarrow>
             (case write_file env (output_path output_folder file) of
                Written \<Rightarrow> [Saved (output_path output_folder file)]
              | OpenFailed e \<Rightarrow>
                  [ErrorProcessing (path_name (entry_path file)) (LibFailure e)]
              | DumpFailed n e \<Rightarrow>
                  [ErrorProcessing (path_name (entry_path file)) (LibFailure e)]))
      else [])"


section \<open>Dispatch on the path suffix\<close>

lemma endswith_last:
  assumes "endswith s suf" "suf \<noteq> []"
  shows "last s = last suf"
proof -
  from assms have "drop (length s - length suf) s = suf" "s \<noteq> []"
    by (auto simp: endswith_def)
  then show ?thesis using assms(2) by (metis last_drop drop_eq_Nil not_le)
qed

lemma endswith_same_length:
  assumes "endswith s a" "endswith s b" "length a = length b"
  shows "a = b"
  using assms by (auto simp: endswith_def)

lemma endswith_exclusive:
  "endswith p ''.pdf'' \<Longrightarrow> \<not> endswith p ''.docx''"
  "endswith p ''.pdf'' \<Longrightarrow> \<not> endswith p ''.xlsx''"
  "endswith p ''.pdf'' \<Longrightarrow> \<not> endswith p ''.pptx''"
  "endswith p ''.pdf'' \<Longrightarrow> \<not> endswith p ''.epub''"
  "endswith p ''.docx'' \<Longrightarrow> \<not> endswith p ''.xlsx''"
  "endswith p ''.docx'' \<Longrightarrow> \<not> endswith p ''.pptx''"
  "endswith p ''.docx'' \<Longrightarrow> \<not> endswith p ''.epub''"
  "endswith p ''.xlsx'' \<Longrightarrow> \<not> endswith p ''.pptx''"
  "endswith p ''.xlsx'' \<Longrightarrow> \<not> endswith p ''.epub''"
  "endswith p ''.pptx'' \<Longrightarrow> \<not> endswith p ''.epub''"
  using endswith_last[of p "''.pdf''"] endswith_last[of p "''.docx''"]
    endswith_last[of p "''.xlsx''"] endswith_last[of p "''.pptx''"]
    endswith_last[of p "''.epub''"]
    endswith_same_length[of p "''.docx''" "''.xlsx''"]
    endswith_same_length[of p "''.docx''" "''.pptx''"]
    endswith_same_length[of p "''.xlsx''" "''.pptx''"]
  by auto

lemma preprocess_pdf:
  "endswith p ''.pdf'' \<Longrightarrow> preprocess_document env p =
     (case extract_text_from_pdf env p of
        Inl e \<Rightarrow> Inl (LibFailure e)
      | Inr text \<Rightarrow> Inr \<lparr>file_type = ''PDF'', content = text,
          metadata = [(''author'', ''Unknown''), (''date'', ''2023-10-01''), (''source'', basename p)]\<rparr>)"
  by (simp add: preprocess_document_def from_lib_def normalize_to_json_def split: sum.splits)

lemma preprocess_docx:
  assumes "endswith p ''.docx''"
  shows "preprocess_document env p =
     (case extract_text_from_docx env p of
        Inl e \<Rightarrow> Inl (LibFailure e)
      | Inr text \<Rightarrow> Inr \<lparr>file_type = ''Word'', content = text,
          metadata = [(''author'', ''Unknown''), (''date'', ''2023-10-01''), (''source'', basename p)]\<rparr>)"
proof -
  have "\<not> endswith p ''.pdf''"
    using assms endswith_exclusive[of p] by blast+
  then show ?thesis using assms
    by (simp add: preprocess_document_def from_lib_def normalize_to_json_def split: sum.splits)
qed

lemma preprocess_xlsx:
  assumes "endswith p ''.xlsx''"
  shows "preprocess_document env p =
     (case extract_tables_from_excel env p of
        Inl e \<Rightarrow> Inl (LibFailure e)
      | Inr tables \<Rightarrow> Inr \<lparr>file_type = ''Excel'',
          content = str_tables (label_repr env) (cell_repr env) tables,
          metadata = [(''author'', ''Unknown''), (''date'', ''2023-10-01''), (''source'', basename p)]\<rparr>)"
proof -
  have "\<not> endswith p ''.pdf''" "\<not> endswith p ''.docx''"
    using assms endswith_exclusive[of p] by blast+
  then show ?thesis using assms
    by (simp add: preprocess_document_def from_lib_def normalize_to_json_def split: sum.splits)
qed

lemma preprocess_pptx:
  assumes "endswith p ''.pptx''"
  shows "preprocess_document env p =
     (case extract_text_from_ppt env p of
        Inl e \<Rightarrow> Inl (LibFailure e)
      | Inr text \<Rightarrow> Inr \<lparr>file_type = ''PowerPoint'', content = text,
          metadata = [(''author'', ''Unknown''), (''date'', ''2023-10-01''), (''source'', basename p)]\<rparr>)"
proof -
  have "\<not> endswith p ''.pdf''" "\<not> endswith p ''.docx''" "\<not> endswith p ''.xlsx''"
    using assms endswith_exclusive[of p] by blast+
  then show ?thesis using assms
    by (simp add: preprocess_document_def from_lib_def normalize_to_json_def split: sum.splits)
qed

lemma preprocess_epub:
  assumes "endswith p ''.epub''"
  shows "preprocess_document env p =
     (case extract_text_from_epub env p of
        Inl e \<Rightarrow> Inl (LibFailure e)
      | Inr text \<Rightarrow> Inr \<lparr>file_type = ''EPUB'', content = text,
          metadata = [(''author'', ''Unknown''), (''date'', ''2023-10-01''), (''source'', basename p)]\<rparr>)"
proof -
  have "\<not> endswith p ''.pdf''" "\<not> endswith p ''.docx''" "\<not> endswith p ''.xlsx''" "\<not> endswith p ''.pptx''"
    using assms endswith_exclusive[of p] by blast+
  then show ?thesis using assms
    by (simp add: preprocess_document_def from_lib_def normalize_to_json_def split: sum.splits)
qed

lemma preprocess_unsupported:
  "\<not> endswith p ''.pdf'' \<Longrightarrow> \<not> endswith p ''.docx'' \<Longrightarrow> \<not> endswith p ''.xlsx'' \<Longrightarrow>
   \<not> endswith p ''.pptx'' \<Longrightarrow> \<not> endswith p ''.epub'' \<Longrightarrow>
   preprocess_document env p = Inl (UnsupportedFormat p)"
  by (simp add: preprocess_document_def)


section \<open>Path components\<close>

lemma basename_eq: "basename p = rev (takeWhile (\<lambda>x. x \<noteq> CHR ''/'') (rev p))"
proof (cases "CHR ''/'' \<in> set p")
  case False
  then have "takeWhile (\<lambda>x. x \<noteq> CHR ''/'') (rev p) = rev p"
    by auto
  then have "rev (takeWhile (\<lambda>x. x \<noteq> CHR ''/'') (rev p)) = p"
    by (simp only: rev_rev_ident)
  moreover have "basename p = p"
    using False by (simp add: basename_def rfind_def)
  ultimately show ?thesis by (simp only:)
next
  case True
  let ?k = "length (takeWhile (\<lambda>x. x \<noteq> CHR ''/'') (rev p))"
  have "takeWhile (\<lambda>x. x \<noteq> CHR ''/'') (rev p) \<noteq> rev p"
    using True by (auto simp: takeWhile_eq_all_conv)
  then have "?k \<noteq> length (rev p)"
    using takeWhile_eq_take[of "\<lambda>x. x \<noteq> CHR ''/''" "rev p"] by auto
  then have "?k < length p"
    using length_takeWhile_le[of "\<lambda>x. x \<noteq> CHR ''/''" "rev p"] by simp
  then have "nat (rfind p CHR ''/'' + 1) = length p - ?k"
    using True by (simp add: rfind_def)
  then have "basename p = drop (length p - ?k) p" by (simp add: basename_def)
  also have "\<dots> = rev (take ?k (rev p))" by (simp add: rev_take)
  also have "take ?k (rev p) = takeWhile (\<lambda>x. x \<noteq> CHR ''/'') (rev p)"
    by (simp add: takeWhile_eq_take[symmetric])
  finally show ?thesis .
qed

lemma basename_no_sep: "CHR ''/'' \<notin> set (basename p)"
  using set_takeWhileD[of "CHR ''/''" "\<lambda>x. x \<noteq> CHR ''/''" "rev p"]
  by (auto simp: basename_eq)

lemma basename_split:
  "\<exists>d. p = d @ basename p \<and> (d = [] \<or> last d = CHR ''/'')"
proof -
  let ?P = "\<lambda>x. x \<noteq> CHR ''/''"
  have "rev p = takeWhile ?P (rev p) @ dropWhile ?P (rev p)" by simp
  then have "p = rev (dropWhile ?P (rev p)) @ rev (takeWhile ?P (rev p))"
    by (metis rev_append rev_rev_ident)
  moreover have "dropWhile ?P (rev p) = [] \<or> hd (dropWhile ?P (rev p)) = CHR ''/''"
    using hd_dropWhile[of ?P "rev p"] by auto
  then have "rev (dropWhile ?P (rev p)) = [] \<or> last (rev (dropWhile ?P (rev p))) = CHR ''/''"
    by (auto simp: last_rev)
  ultimately show ?thesis unfolding basename_eq by blast
qed


section \<open>The record returned for a supported path\<close>

lemma sample_docx:
  "preprocess_document sample_libs ''in/report.docx'' =
     Inr \<lparr>file_type = ''Word'', content = ''Hello World'',
          metadata = [(''author'', ''Unknown''), (''date'', ''2023-10-01''),
                      (''source'', ''report.docx'')]\<rparr>"
  by code_simp

lemma sample_file_types:
  "map_sum id file_type (preprocess_document sample_libs ''a.pdf'') = Inr ''PDF''"
  "map_sum id file_type (preprocess_document sample_libs ''a.docx'') = Inr ''Word''"
  "map_sum id file_type (preprocess_document sample_libs ''a.xlsx'') = Inr ''Excel''"
  "map_sum id file_type (preprocess_document sample_libs ''a.pptx'') = Inr ''PowerPoint''"
  "map_sum id file_type (preprocess_document sample_libs ''a.epub'') = Inr ''EPUB''"
  by code_simp+

text \<open>
  Claim C1. For a path that ends with one of the five supported suffixes,
  \<open>preprocess_document\<close> either returns a record whose \<open>file_type\<close> is the value
  matching that suffix (PDF, Word, Excel, PowerPoint, EPUB), or fails with the failure of
  the extractor; it never returns a record with another \<open>file_type\<close>. The
  \<open>content\<close> field of a returned record is a string in every case (there is no null
  content: a failed extraction gives no record at all).
\<close>

theorem preprocess_document_file_type:
  "(endswith file_path ''.pdf'' \<longrightarrow>
      (case preprocess_document env file_path of
         Inr r \<Rightarrow> file_type r = ''PDF'' | Inl e \<Rightarrow> \<exists>le. e = LibFailure le))
   \<and> (endswith file_path ''.docx'' \<longrightarrow>
      (case preprocess_document env file_path of
         Inr r \<Rightarrow> file_type r = ''Word'' | Inl e \<Rightarrow> \<exists>le. e = LibFailure le))
   \<and> (endswith file_path ''.xlsx'' \<longrightarrow>
      (case preprocess_document env file_path of
         Inr r \<Rightarrow> file_type r = ''Excel'' | Inl e \<Rightarrow> \<exists>le. e = LibFailure le))
   \<and> (endswith file_path ''.pptx'' \<longrightarrow>
      (case preprocess_document env file_path of
         Inr r \<Rightarrow> file_type r = ''PowerPoint'' | Inl e \<Rightarrow> \<exists>le. e = LibFailure le))
   \<and> (endswith file_path ''.epub'' \<longrightarrow>
      (case preprocess_document env file_path of
         Inr r \<Rightarrow> file_type r = ''EPUB'' | Inl e \<Rightarrow> \<exists>le. e = LibFailure le))"
proof (intro conjI impI)
  assume "endswith file_path ''.pdf''"
  then show "case preprocess_document env file_path of
               Inr r \<Rightarrow> file_type r = ''PDF'' | Inl e \<Rightarrow> \<exists>le. e = LibFailure le"
    by (simp only: preprocess_pdf split: sum.splits) simp
next
  assume "endswith file_path ''.docx''"
  then show "case preprocess_document env file_path of
               Inr r \<Rightarrow> file_type r = ''Word'' | Inl e \<Rightarrow> \<exists>le. e = LibFailure le"
    by (simp only: preprocess_docx split: sum.splits) simp
next
  assume "endswith file_path ''.xlsx''"
  then show "case preprocess_document env file_path of
               Inr r \<Rightarrow> file_type r = ''Excel'' | Inl e \<Rightarrow> \<exists>le. e = LibFailure le"
    by (simp only: preprocess_xlsx split: sum.splits) simp
next
  assume "endswith file_path ''.pptx''"
  then show "case preprocess_document env file_path of
               Inr r \<Rightarrow> file_type r = ''PowerPoint'' | Inl e \<Rightarrow> \<exists>le. e = LibFailure le"
    by (simp only: preprocess_pptx split: sum.splits) simp
next
  assume "endswith file_path ''.epub''"
  then show "case preprocess_document env file_path of
               Inr r \<Rightarrow> file_type r = ''EPUB'' | Inl e \<Rightarrow> \<exists>le. e = LibFailure le"
    by (simp only: preprocess_epub split: sum.splits) simp
qed

theorem preprocess_document_file_type_witness:
  "endswith ''a.pdf'' ''.pdf'' \<and> endswith ''a.docx'' ''.docx'' \<and> endswith ''a.xlsx'' ''.xlsx''
   \<and> endswith ''a.pptx'' ''.pptx'' \<and> endswith ''a.epub'' ''.epub''
   \<and> (\<exists>r. preprocess_document sample_libs ''a.pdf'' = Inr r \<and> file_type r = ''PDF'')
   \<and> (\<exists>r. preprocess_document sample_libs ''a.docx'' = Inr r \<and> file_type r = ''Word'')
   \<and> (\<exists>r. preprocess_document sample_libs ''a.xlsx'' = Inr r \<and> file_type r = ''Excel'')
   \<and> (\<exists>r. preprocess_document sample_libs ''a.pptx'' = Inr r \<and> file_type r = ''PowerPoint'')
   \<and> (\<exists>r. preprocess_document sample_libs ''a.epub'' = Inr r \<and> file_type r = ''EPUB'')"
proof -
  have h: "endswith ''a.pdf'' ''.pdf''" "endswith ''a.docx'' ''.docx''"
    "endswith ''a.xlsx'' ''.xlsx''" "endswith ''a.pptx'' ''.pptx''"
    "endswith ''a.epub'' ''.epub''"
    by (simp_all add: endswith_def)
  have r: "\<exists>r. x = Inr r \<and> file_type r = ft" if "map_sum id file_type x = Inr ft"
    for x :: "error + normalized" and ft
    using that by (cases x) simp_all
  show ?thesis
    using h r[OF sample_file_types(1)] r[OF sample_file_types(2)] r[OF sample_file_types(3)]
      r[OF sample_file_types(4)] r[OF sample_file_types(5)]
      preprocess_document_file_type[of "''a.pdf''" sample_libs]
      preprocess_document_file_type[of "''a.docx''" sample_libs]
      preprocess_document_file_type[of "''a.xlsx''" sample_libs]
      preprocess_document_file_type[of "''a.pptx''" sample_libs]
      preprocess_document_file_type[of "''a.epub''" sample_libs]
    by blast
qed


section \<open>Unsupported paths\<close>




lemma supported_or_unsupported:
  obtains "endswith file_path ''.pdf''" | "endswith file_path ''.docx''"
    | "endswith file_path ''.xlsx''" | "endswith file_path ''.pptx''"
    | "endswith file_path ''.epub''"
    | "\<not> endswith file_path ''.pdf''" "\<not> endswith file_path ''.docx''"
      "\<not> endswith file_path ''.xlsx''" "\<not> endswith file_path ''.pptx''"
      "\<not> endswith file_path ''.epub''"
  by blast

lemma unsupported_format_aux:
  "(preprocess_document env file_path = Inl (UnsupportedFormat q)) =
     (q = file_path \<and> \<not> endswith file_path ''.pdf'' \<and> \<not> endswith file_path ''.docx''
        \<and> \<not> endswith file_path ''.xlsx'' \<and> \<not> endswith file_path ''.pptx''
        \<and> \<not> endswith file_path ''.epub'')"
proof -
  consider "endswith file_path ''.pdf''" | "endswith file_path ''.docx''"
    | "endswith file_path ''.xlsx''" | "endswith file_path ''.pptx''"
    | "endswith file_path ''.epub''"
    | "\<not> endswith file_path ''.pdf''" "\<not> endswith file_path ''.docx''"
      "\<not> endswith file_path ''.xlsx''" "\<not> endswith file_path ''.pptx''"
      "\<not> endswith file_path ''.epub''"
    by blast
  then show ?thesis
  proof cases
    case 1
    then show ?thesis by (simp add: preprocess_pdf split: sum.splits)
  next
    case 2
    then show ?thesis by (simp add: preprocess_docx split: sum.splits)
  next
    case 3
    then show ?thesis by (simp add: preprocess_xlsx split: sum.splits)
  next
    case 4
    then show ?thesis by (simp add: preprocess_pptx split: sum.splits)
  next
    case 5
    then show ?thesis by (simp add: preprocess_epub split: sum.splits)
  next
    case 6
    then show ?thesis by (auto simp add: preprocess_unsupported)
  qed
qed

text \<open>
  Claim C3. \<open>preprocess_document\<close> fails with \<open>UnsupportedFormat\<close> exactly when
  the path string ends with none of \<^verbatim>\<open>.pdf\<close>, \<^verbatim>\<open>.docx\<close>, \<^verbatim>\<open>.xlsx\<close>, \<^verbatim>\<open>.pptx\<close>,
  \<^verbatim>\<open>.epub\<close> (compared case-sensitively), and the error then carries that path. Every
  other failure is a \<open>LibFailure\<close>, which only the extractors produce.
\<close>

theorem unsupported_format_iff:
  "(preprocess_document env file_path = Inl (UnsupportedFormat q)) =
     (q = file_path \<and> \<not> endswith file_path ''.pdf'' \<and> \<not> endswith file_path ''.docx''
        \<and> \<not> endswith file_path ''.xlsx'' \<and> \<not> endswith file_path ''.pptx''
        \<and> \<not> endswith file_path ''.epub'')"
  by (rule unsupported_format_aux)

theorem unsupported_format_iff_witness:
  "preprocess_document sample_libs ''report.xyz'' = Inl (UnsupportedFormat ''report.xyz'')
   \<and> preprocess_document sample_libs ''REPORT.PDF'' = Inl (UnsupportedFormat ''REPORT.PDF'')"
  using unsupported_format_iff[of sample_libs "''report.xyz''" "''report.xyz''"]
    unsupported_format_iff[of sample_libs "''REPORT.PDF''" "''REPORT.PDF''"]
  by (simp add: endswith_def)


section \<open>Default metadata\<close>

text \<open>
  Claim C5. Every record returned by \<open>preprocess_document\<close> carries the default
  metadata: author \<^verbatim>\<open>Unknown\<close>, the fixed date \<^verbatim>\<open>2023-10-01\<close>, and as source the
  base name of the path, which is the part of the path after its last separator.
\<close>

theorem preprocess_document_default_metadata:
  assumes "preprocess_document env file_path = Inr r"
  shows "metadata r = [(''author'', ''Unknown''), (''date'', ''2023-10-01''),
                       (''source'', basename file_path)]
         \<and> CHR ''/'' \<notin> set (basename file_path)
         \<and> (\<exists>d. file_path = d @ basename file_path \<and> (d = [] \<or> last d = CHR ''/''))"
proof -
  have "metadata r = [(''author'', ''Unknown''), (''date'', ''2023-10-01''),
                       (''source'', basename file_path)]"
  proof (cases rule: supported_or_unsupported[of file_path])
    case 1
    with assms show ?thesis by (auto simp add: preprocess_pdf split: sum.splits)
  next
    case 2
    with assms show ?thesis by (auto simp add: preprocess_docx split: sum.splits)
  next
    case 3
    with assms show ?thesis by (auto simp add: preprocess_xlsx split: sum.splits)
  next
    case 4
    with assms show ?thesis by (auto simp add: preprocess_pptx split: sum.splits)
  next
    case 5
    with assms show ?thesis by (auto simp add: preprocess_epub split: sum.splits)
  next
    case 6
    with assms show ?thesis by (simp add: preprocess_unsupported)
  qed
  then show ?thesis using basename_no_sep basename_split by blast
qed

theorem preprocess_document_default_metadata_witness:
  "\<exists>r. preprocess_document sample_libs ''in/report.docx'' = Inr r
       \<and> metadata r = [(''author'', ''Unknown''), (''date'', ''2023-10-01''),
                        (''source'', ''report.docx'')]"
  using preprocess_document_default_metadata[OF sample_docx] sample_docx by simp


section \<open>A file named by a bare extension\<close>






section \<open>Metadata enrichment\<close>

lemma key_neq:
  "''author'' \<noteq> ''date''" "''author'' \<noteq> ''source''" "''date'' \<noteq> ''source''"
  "''date'' \<noteq> ''author''" "''source'' \<noteq> ''author''" "''source'' \<noteq> ''date''"
  by simp_all

lemma truthy_the: "truthy a \<Longrightarrow> Some (the a) = a"
  by (cases a) simp_all

lemma enrich_metadata_lookup:
  "map_of (metadata (enrich_with_metadata r author date source)) k =
     (if k = ''source'' \<and> truthy source then source
      else if k = ''date'' \<and> truthy date then date
      else if k = ''author'' \<and> truthy author then author
      else map_of (metadata r) k)"
  by (simp add: enrich_with_metadata_def Let_def update_conv' truthy_the key_neq)

lemma enrich_other_fields:
  "file_type (enrich_with_metadata r author date source) = file_type r"
  "content (enrich_with_metadata r author date source) = content r"
  by (simp_all add: enrich_with_metadata_def Let_def)

lemma enrich_falsy:
  "\<not> truthy author \<Longrightarrow> \<not> truthy date \<Longrightarrow> \<not> truthy source \<Longrightarrow>
   enrich_with_metadata r author date source = r"
  by (simp add: enrich_with_metadata_def)

text \<open>
  Claim C4. \<open>enrich_with_metadata\<close> changes nothing but the metadata of the record it
  is given (the record it returns is that record, updated in place). Each of the keys
  author, date and source is set to its argument when the argument is truthy and keeps
  its previous value, or stays absent, when the argument is \<^verbatim>\<open>None\<close> or the empty
  string; no other key changes. With three falsy arguments, and in particular with all
  three omitted, the record is returned unchanged.
\<close>

theorem enrich_sets_only_truthy:
  "file_type (enrich_with_metadata r author date source) = file_type r
   \<and> content (enrich_with_metadata r author date source) = content r
   \<and> map_of (metadata (enrich_with_metadata r author date source)) ''author'' =
       (if truthy author then author else map_of (metadata r) ''author'')
   \<and> map_of (metadata (enrich_with_metadata r author date source)) ''date'' =
       (if truthy date then date else map_of (metadata r) ''date'')
   \<and> map_of (metadata (enrich_with_metadata r author date source)) ''source'' =
       (if truthy source then source else map_of (metadata r) ''source'')
   \<and> (\<forall>k. k \<noteq> ''author'' \<and> k \<noteq> ''date'' \<and> k \<noteq> ''source'' \<longrightarrow>
         map_of (metadata (enrich_with_metadata r author date source)) k = map_of (metadata r) k)
   \<and> (\<not> truthy author \<and> \<not> truthy date \<and> \<not> truthy source \<longrightarrow>
         enrich_with_metadata r author date source = r)
   \<and> enrich_with_metadata r None None None = r"
  unfolding enrich_metadata_lookup enrich_other_fields
  using key_neq enrich_falsy[of author date source r] enrich_falsy[of None None None r]
  by simp

theorem enrich_sets_only_truthy_witness:
  "enrich_with_metadata sample_record (Some '''') None (Some ''archive'') =
     \<lparr>file_type = ''Word'', content = ''Hello World'',
      metadata = [(''author'', ''Unknown''), (''date'', ''2023-10-01''),
                  (''source'', ''archive'')]\<rparr>
   \<and> map_of (metadata (enrich_with_metadata sample_record (Some '''') None (Some ''archive'')))
        ''author'' = Some ''Unknown''
   \<and> enrich_with_metadata sample_record None None None = sample_record"
  using enrich_sets_only_truthy[of sample_record "Some ''''" None "Some ''archive''"]
  by (simp add: sample_record_def enrich_with_metadata_def)

text \<open>
  Claim C8. With only an author supplied, \<open>enrich_with_metadata\<close> leaves the date and
  the source of the record as they were; when the author is a non-empty string (such as
  \<^verbatim>\<open>"A"\<close>) it is stored as the author, replacing the previous one in place or adding
  the key.
\<close>

theorem enrich_author_only:
  "map_of (metadata (enrich_with_metadata r (Some a) None None)) ''date'' =
     map_of (metadata r) ''date''
   \<and> map_of (metadata (enrich_with_metadata r (Some a) None None)) ''source'' =
       map_of (metadata r) ''source''
   \<and> (a \<noteq> [] \<longrightarrow>
         map_of (metadata (enrich_with_metadata r (Some a) None None)) ''author'' = Some a
         \<and> metadata (enrich_with_metadata r (Some a) None None) =
             AList.update ''author'' a (metadata r))"
  using key_neq by (simp add: enrich_with_metadata_def update_conv')

theorem enrich_author_only_witness:
  "''A'' \<noteq> []
   \<and> metadata (enrich_with_metadata sample_record (Some ''A'') None None) =
       [(''author'', ''A''), (''date'', ''2023-10-01''), (''source'', ''report.docx'')]
   \<and> map_of (metadata (enrich_with_metadata sample_record (Some ''A'') None None)) ''date'' =
       Some ''2023-10-01''"
  using enrich_author_only[of sample_record "''A''"]
  by (simp add: sample_record_def)


section \<open>Text extractors strip their result\<close>

lemma rstrip_prefix: "\<exists>t. s = rstrip s @ t"
proof -
  have "rev s = takeWhile py_isspace (rev s) @ dropWhile py_isspace (rev s)" by simp
  then have "s = rev (dropWhile py_isspace (rev s)) @ rev (takeWhile py_isspace (rev s))"
    by (metis rev_append rev_rev_ident)
  then show ?thesis unfolding rstrip_def by blast
qed

lemma rstrip_last: "rstrip s \<noteq> [] \<Longrightarrow> \<not> py_isspace (last (rstrip s))"
  using hd_dropWhile[of py_isspace "rev s"] by (simp add: rstrip_def last_rev)

lemma lstrip_hd: "lstrip s \<noteq> [] \<Longrightarrow> \<not> py_isspace (hd (lstrip s))"
  using hd_dropWhile[of py_isspace s] by (simp add: lstrip_def)

lemma strip_no_outer_whitespace: "no_outer_whitespace (strip s)"
proof (cases "strip s = []")
  case True
  then show ?thesis by (simp add: no_outer_whitespace_def)
next
  case False
  obtain t where t: "lstrip s = strip s @ t"
    using rstrip_prefix[of "lstrip s"] by (auto simp: strip_def)
  with False have "lstrip s \<noteq> []" "hd (lstrip s) = hd (strip s)" by auto
  then have "\<not> py_isspace (hd (strip s))" using lstrip_hd[of s] by simp
  moreover have "\<not> py_isspace (last (strip s))"
    using False rstrip_last[of "lstrip s"] by (simp add: strip_def)
  ultimately show ?thesis by (simp add: no_outer_whitespace_def)
qed

lemma sample_extractions:
  "extract_text_from_pdf sample_libs ''a.pdf'' = Inr ''Page one and two.''"
  "extract_text_from_docx sample_libs ''a.docx'' = Inr ''Hello World''"
  "extract_text_from_ppt sample_libs ''a.pptx'' = Inr (''Title'' @ [CHR 0x0A] @ ''Body'')"
  "extract_text_from_epub sample_libs ''a.epub'' = Inr ''<p>Chapter</p>''"
  by code_simp+

text \<open>
  Claim C6. Whenever one of the text extractors (PDF, Word, PowerPoint, EPUB) returns a
  string, for any document whatsoever, the string has no whitespace character at its
  start and none at its end (it may be empty).
\<close>

theorem extractors_return_stripped_text:
  "(extract_text_from_pdf env p = Inr t \<longrightarrow> no_outer_whitespace t)
   \<and> (extract_text_from_docx env p = Inr t \<longrightarrow> no_outer_whitespace t)
   \<and> (extract_text_from_ppt env p = Inr t \<longrightarrow> no_outer_whitespace t)
   \<and> (extract_text_from_epub env p = Inr t \<longrightarrow> no_outer_whitespace t)"
  using strip_no_outer_whitespace
  by (auto simp: extract_text_from_pdf_def extract_text_from_docx_def
        extract_text_from_ppt_def extract_text_from_epub_def split: sum.splits)

theorem extractors_return_stripped_text_witness:
  "extract_text_from_pdf sample_libs ''a.pdf'' = Inr ''Page one and two.''
   \<and> no_outer_whitespace ''Page one and two.''
   \<and> extract_text_from_docx sample_libs ''a.docx'' = Inr ''Hello World''
   \<and> no_outer_whitespace ''Hello World''
   \<and> extract_text_from_ppt sample_libs ''a.pptx'' = Inr (''Title'' @ [CHR 0x0A] @ ''Body'')
   \<and> no_outer_whitespace (''Title'' @ [CHR 0x0A] @ ''Body'')
   \<and> extract_text_from_epub sample_libs ''a.epub'' = Inr ''<p>Chapter</p>''
   \<and> no_outer_whitespace ''<p>Chapter</p>''"
  using extractors_return_stripped_text[of sample_libs "''a.pdf''" "''Page one and two.''"]
    extractors_return_stripped_text[of sample_libs "''a.docx''" "''Hello World''"]
    extractors_return_stripped_text[of sample_libs "''a.pptx''" "''Title'' @ [CHR 0x0A] @ ''Body''"]
    extractors_return_stripped_text[of sample_libs "''a.epub''" "''<p>Chapter</p>''"]
    sample_extractions
  by simp


section \<open>Spreadsheets\<close>

lemma update_fresh_key: "k \<notin> fst ` set al \<Longrightarrow> AList.update k v al = al @ [(k, v)]"
  by (induction al) auto

lemma dict_fold_distinct:
  assumes "distinct (map fst xs)" "fst ` set xs \<inter> fst ` set acc = {}"
  shows "foldl (\<lambda>d kv. AList.update (fst kv) (snd kv) d) acc xs = acc @ xs"
  using assms
proof (induction xs arbitrary: acc)
  case Nil
  then show ?case by simp
next
  case (Cons x xs)
  from Cons.prems have fresh: "fst x \<notin> fst ` set acc" by auto
  have "fst ` set xs \<inter> fst ` set (acc @ [x]) = {}"
    using Cons.prems by auto
  with Cons.IH[of "acc @ [x]"] Cons.prems
  show ?case by (simp add: update_fresh_key[OF fresh])
qed

lemma py_dict_distinct: "distinct (map fst items) \<Longrightarrow> py_dict items = items"
  using dict_fold_distinct[of items "[]"] by (simp add: py_dict_def)

lemma dict_comprehension_distinct:
  assumes "distinct (map fst xs)" "fst ` set xs \<inter> fst ` set acc = {}"
  shows "foldl (\<lambda>tables (sheet, df). AList.update sheet (f df) tables) acc xs =
           acc @ map (\<lambda>(sheet, df). (sheet, f df)) xs"
  using assms
proof (induction xs arbitrary: acc)
  case Nil
  then show ?case by simp
next
  case (Cons x xs)
  obtain sheet df where x: "x = (sheet, df)" by (cases x)
  from Cons.prems have fresh: "sheet \<notin> fst ` set acc" by (auto simp: x)
  have "fst ` set xs \<inter> fst ` set (acc @ [(sheet, f df)]) = {}"
    using Cons.prems by (auto simp: x)
  with Cons.IH[of "acc @ [(sheet, f df)]"] Cons.prems
  show ?case by (simp add: x update_fresh_key[OF fresh])
qed

lemma extract_tables_distinct:
  assumes "read_excel env p = Inr excel_data" "distinct (map fst excel_data)"
  shows "extract_tables_from_excel env p =
           Inr (map (\<lambda>(sheet, df). (sheet, to_dict_records df)) excel_data)"
  using assms dict_comprehension_distinct[of excel_data "[]" to_dict_records]
  by (simp add: extract_tables_from_excel_def)

lemma to_dict_records_cell:
  assumes "distinct (columns df)" "i < length (rows df)"
    "length (rows df ! i) = length (columns df)" "j < length (columns df)"
  shows "map_of (to_dict_records df ! i) (columns df ! j) = Some (rows df ! i ! j)"
proof -
  have "distinct (map fst (zip (columns df) (rows df ! i)))"
    using assms(1,3) by simp
  then have "py_dict (zip (columns df) (rows df ! i)) = zip (columns df) (rows df ! i)"
    by (rule py_dict_distinct)
  then show ?thesis
    using assms by (simp add: to_dict_records_def map_of_zip_nth)
qed

lemma py_join_member: "x \<in> set xs \<Longrightarrow> \<exists>before after. py_join sep xs = before @ x @ after"
proof (induction sep xs rule: py_join.induct)
  case (1 sep)
  then show ?case by simp
next
  case (2 sep y)
  then have "py_join sep [y] = [] @ x @ []" by simp
  then show ?case by blast
next
  case (3 sep y z zs)
  show ?case
  proof (cases "x = y")
    case True
    then have "py_join sep (y # z # zs) = [] @ x @ (sep @ py_join sep (z # zs))" by simp
    then show ?thesis by blast
  next
    case False
    with 3 obtain before after where "py_join sep (z # zs) = before @ x @ after" by auto
    then have "py_join sep (y # z # zs) = (y @ sep @ before) @ x @ after" by simp
    then show ?thesis by blast
  qed
qed

lemma str_tables_unfold:
  "str_tables repr_label repr_cell (map (\<lambda>(sheet, df). (sheet, to_dict_records df)) excel_data) =
     ''{'' @ py_join '', ''
       (map (\<lambda>(sheet, df).
               repr_str sheet @ '': ['' @
               py_join '', ''
                 (map (\<lambda>record.
                         ''{'' @ py_join '', ''
                           (map (\<lambda>(label, v). repr_label label @ '': '' @ repr_cell v) record)
                         @ ''}'')
                    (to_dict_records df))
               @ '']'')
          excel_data)
     @ ''}''"
  by (simp add: str_tables_def repr_records_def repr_record_def[abs_def] comp_def case_prod_unfold)

lemma sample_xlsx:
  "extract_tables_from_excel sample_libs ''in/data.xlsx'' =
     Inr [(''Sheet1'', [[(''A'', PyInt 1), (''B'', PyInt 2)],
                        [(''A'', PyInt 3), (''B'', PyInt 4)]])]"
  "preprocess_document sample_libs ''in/data.xlsx'' =
     Inr \<lparr>file_type = ''Excel'',
          content = ''{'Sheet1': [{'A': 1, 'B': 2}, {'A': 3, 'B': 4}]}'',
          metadata = [(''author'', ''Unknown''), (''date'', ''2023-10-01''),
                      (''source'', ''data.xlsx'')]\<rparr>"
  "preprocess_document sample_libs ''in/names.xlsx'' =
     Inr \<lparr>file_type = ''Excel'',
          content = ''{'People': [{'name': 'Ann', 'age': 41}], 'Empty': []}'',
          metadata = [(''author'', ''Unknown''), (''date'', ''2023-10-01''),
                      (''source'', ''names.xlsx'')]\<rparr>"
  by code_simp+

text \<open>
  Claim C7. When \<^verbatim>\<open>read_excel\<close> succeeds (its result is a dictionary, so the sheet names
  are distinct), \<open>extract_tables_from_excel\<close> returns, in sheet order, each sheet name
  with the sequence of that sheet's rows, one record per row; in a sheet with distinct
  column labels the record of row \<open>i\<close> maps the label of column \<open>j\<close> to the cell at
  row \<open>i\<close>, column \<open>j\<close>, whatever the types of the labels and of the cells. For a path
  ending in \<^verbatim>\<open>.xlsx\<close>, \<open>preprocess_document\<close> returns a record whose content is one
  string, the text of that mapping: a brace, then for each sheet in order the quoted
  sheet name, a colon and the bracketed list of its records, each record a braced list of
  \<^verbatim>\<open>label: value\<close> items, all separated by a comma and a space, then the closing brace;
  the text of every sheet occurs in the content. The instances that follow are the sheet
  \<^verbatim>\<open>Sheet1\<close> with rows \<^verbatim>\<open>{A:1,B:2}\<close> and \<^verbatim>\<open>{A:3,B:4}\<close>, and a workbook of two sheets.
\<close>

theorem excel_tables_then_string:
  assumes "read_excel env p = Inr excel_data" and "distinct (map fst excel_data)"
  shows "extract_tables_from_excel env p =
           Inr (map (\<lambda>(sheet, df). (sheet, to_dict_records df)) excel_data)
         \<and> (\<forall>(sheet, df) \<in> set excel_data.
              map_of (map (\<lambda>(sheet, df). (sheet, to_dict_records df)) excel_data) sheet =
                Some (to_dict_records df)
              \<and> length (to_dict_records df) = length (rows df)
              \<and> (distinct (columns df) \<longrightarrow>
                   (\<forall>i < length (rows df). length (rows df ! i) = length (columns df) \<longrightarrow>
                      to_dict_records df ! i = zip (columns df) (rows df ! i)
                      \<and> (\<forall>j < length (columns df).
                           map_of (to_dict_records df ! i) (columns df ! j) =
                             Some (rows df ! i ! j)))))
         \<and> (endswith p ''.xlsx'' \<longrightarrow>
              (\<exists>r. preprocess_document env p = Inr r
                 \<and> file_type r = ''Excel''
                 \<and> content r =
                     ''{'' @ py_join '', ''
                       (map (\<lambda>(sheet, df).
                               repr_str sheet @ '': ['' @
                               py_join '', ''
                                 (map (\<lambda>record.
                                         ''{'' @ py_join '', ''
                                           (map (\<lambda>(label, v).
                                                   label_repr env label @ '': '' @ cell_repr env v)
                                              record)
                                         @ ''}'')
                                    (to_dict_records df))
                               @ '']'')
                          excel_data)
                     @ ''}''
                 \<and> (\<forall>(sheet, df) \<in> set excel_data.
                      \<exists>before after.
                        content r =
                          before @
                          (repr_str sheet @ '': ['' @
                           py_join '', ''
                             (map (\<lambda>record.
                                     ''{'' @ py_join '', ''
                                       (map (\<lambda>(label, v).
                                               label_repr env label @ '': '' @ cell_repr env v)
                                          record)
                                     @ ''}'')
                                (to_dict_records df))
                           @ '']'')
                          @ after)))"
proof (intro conjI)
  show ex: "extract_tables_from_excel env p =
           Inr (map (\<lambda>(sheet, df). (sheet, to_dict_records df)) excel_data)"
    by (rule extract_tables_distinct[OF assms])
  show "\<forall>(sheet, df) \<in> set excel_data.
              map_of (map (\<lambda>(sheet, df). (sheet, to_dict_records df)) excel_data) sheet =
                Some (to_dict_records df)
              \<and> length (to_dict_records df) = length (rows df)
              \<and> (distinct (columns df) \<longrightarrow>
                   (\<forall>i < length (rows df). length (rows df ! i) = length (columns df) \<longrightarrow>
                      to_dict_records df ! i = zip (columns df) (rows df ! i)
                      \<and> (\<forall>j < length (columns df).
                           map_of (to_dict_records df ! i) (columns df ! j) =
                             Some (rows df ! i ! j))))"
  proof (intro ballI, clarify, intro conjI)
    fix sheet and df :: "('a, 'b) dataframe"
    assume m: "(sheet, df) \<in> set excel_data"
    have "distinct (map fst (map (\<lambda>(sheet, df). (sheet, to_dict_records df)) excel_data))"
      using assms(2) by (simp add: case_prod_unfold comp_def)
    moreover have "(sheet, to_dict_records df)
        \<in> set (map (\<lambda>(sheet, df). (sheet, to_dict_records df)) excel_data)"
      using m by force
    ultimately show "map_of (map (\<lambda>(sheet, df). (sheet, to_dict_records df)) excel_data) sheet =
                Some (to_dict_records df)"
      by (rule map_of_is_SomeI)
    show "length (to_dict_records df) = length (rows df)"
      by (simp add: to_dict_records_def)
    show "distinct (columns df) \<longrightarrow>
                   (\<forall>i < length (rows df). length (rows df ! i) = length (columns df) \<longrightarrow>
                      to_dict_records df ! i = zip (columns df) (rows df ! i)
                      \<and> (\<forall>j < length (columns df).
                           map_of (to_dict_records df ! i) (columns df ! j) =
                             Some (rows df ! i ! j)))"
    proof (intro impI allI conjI)
      fix i
      assume d: "distinct (columns df)" and i: "i < length (rows df)"
        and l: "length (rows df ! i) = length (columns df)"
      have "distinct (map fst (zip (columns df) (rows df ! i)))"
        using d l by simp
      then show "to_dict_records df ! i = zip (columns df) (rows df ! i)"
        using i by (simp add: to_dict_records_def py_dict_distinct)
      fix j
      assume "j < length (columns df)"
      then show "map_of (to_dict_records df ! i) (columns df ! j) = Some (rows df ! i ! j)"
        using to_dict_records_cell[OF d i l] by blast
    qed
  qed
  show "endswith p ''.xlsx'' \<longrightarrow>
              (\<exists>r. preprocess_document env p = Inr r
                 \<and> file_type r = ''Excel''
                 \<and> content r =
                     ''{'' @ py_join '', ''
                       (map (\<lambda>(sheet, df).
                               repr_str sheet @ '': ['' @
                               py_join '', ''
                                 (map (\<lambda>record.
                                         ''{'' @ py_join '', ''
                                           (map (\<lambda>(label, v).
                                                   label_repr env label @ '': '' @ cell_repr env v)
                                              record)
                                         @ ''}'')
                                    (to_dict_records df))
                               @ '']'')
                          excel_data)
                     @ ''}''
                 \<and> (\<forall>(sheet, df) \<in> set excel_data.
                      \<exists>before after.
                        content r =
                          before @
                          (repr_str sheet @ '': ['' @
                           py_join '', ''
                             (map (\<lambda>record.
                                     ''{'' @ py_join '', ''
                                       (map (\<lambda>(label, v).
                                               label_repr env label @ '': '' @ cell_repr env v)
                                          record)
                                     @ ''}'')
                                (to_dict_records df))
                           @ '']'')
                          @ after))"
  proof (cases "endswith p ''.xlsx''")
    case False
    then show ?thesis by blast
  next
    case x: True
    let ?sheet_text = "\<lambda>(sheet, df).
                               repr_str sheet @ '': ['' @
                               py_join '', ''
                                 (map (\<lambda>record.
                                         ''{'' @ py_join '', ''
                                           (map (\<lambda>(label, v).
                                                   label_repr env label @ '': '' @ cell_repr env v)
                                              record)
                                         @ ''}'')
                                    (to_dict_records df))
                               @ '']''"
    let ?r = "\<lparr>file_type = ''Excel'',
               content = ''{'' @ py_join '', '' (map ?sheet_text excel_data) @ ''}'',
               metadata = [(''author'', ''Unknown''), (''date'', ''2023-10-01''),
                           (''source'', basename p)]\<rparr>"
    have r: "preprocess_document env p = Inr ?r"
      using ex x str_tables_unfold[of "label_repr env" "cell_repr env" excel_data]
      by (simp add: preprocess_xlsx)
    have "\<exists>before after. content ?r = before @ ?sheet_text (sheet, df) @ after"
      if "(sheet, df) \<in> set excel_data" for sheet df
    proof -
      from that have "?sheet_text (sheet, df) \<in> set (map ?sheet_text excel_data)"
        unfolding set_map by (rule imageI)
      then obtain b a where
        "py_join '', '' (map ?sheet_text excel_data) = b @ ?sheet_text (sheet, df) @ a"
        using py_join_member by blast
      then have "content ?r = (''{'' @ b) @ ?sheet_text (sheet, df) @ (a @ ''}'')"
        by simp
      then show ?thesis by blast
    qed
    then have "\<forall>(sheet, df) \<in> set excel_data.
                 \<exists>before after. content ?r = before @ ?sheet_text (sheet, df) @ after"
      by blast
    with r show ?thesis
      by (intro impI exI[of _ ?r]) simp
  qed
qed

theorem excel_tables_then_string_witness:
  "read_excel sample_libs ''in/data.xlsx'' =
     Inr [(''Sheet1'', \<lparr>columns = [''A'', ''B''],
                        rows = [[PyInt 1, PyInt 2], [PyInt 3, PyInt 4]]\<rparr>)]
   \<and> distinct (map fst [(''Sheet1'', \<lparr>columns = [''A'', ''B''],
                        rows = [[PyInt 1, PyInt 2], [PyInt 3, PyInt 4]]\<rparr>)])
   \<and> endswith ''in/data.xlsx'' ''.xlsx''
   \<and> extract_tables_from_excel sample_libs ''in/data.xlsx'' =
       Inr [(''Sheet1'', [[(''A'', PyInt 1), (''B'', PyInt 2)],
                          [(''A'', PyInt 3), (''B'', PyInt 4)]])]
   \<and> (\<exists>r. preprocess_document sample_libs ''in/data.xlsx'' = Inr r
          \<and> content r = ''{'Sheet1': [{'A': 1, 'B': 2}, {'A': 3, 'B': 4}]}'')
   \<and> (\<exists>r. preprocess_document sample_libs ''in/names.xlsx'' = Inr r
          \<and> content r = ''{'People': [{'name': 'Ann', 'age': 41}], 'Empty': []}'')"
proof -
  have h1: "read_excel sample_libs ''in/data.xlsx'' =
     Inr [(''Sheet1'', \<lparr>columns = [''A'', ''B''],
                        rows = [[PyInt 1, PyInt 2], [PyInt 3, PyInt 4]]\<rparr>)]"
    by (simp add: sample_libs_def)
  have h2: "distinct (map fst [(''Sheet1'', \<lparr>columns = [''A'', ''B''],
                        rows = [[PyInt 1, PyInt 2], [PyInt 3, PyInt 4]]\<rparr>)])"
    by simp
  have h3: "endswith ''in/data.xlsx'' ''.xlsx''" by (simp add: endswith_def)
  from excel_tables_then_string[OF h1 h2] h3
  have "\<exists>r. preprocess_document sample_libs ''in/data.xlsx'' = Inr r \<and> file_type r = ''Excel''"
    by blast
  then show ?thesis using h1 h2 h3 sample_xlsx by simp
qed


section \<open>Reading back an encoded string\<close>

lemma below_16_cases:
  assumes "(d::nat) < 16"
  obtains "d = 0" | "d = 1" | "d = 2" | "d = 3" | "d = 4" | "d = 5" | "d = 6" | "d = 7"
    | "d = 8" | "d = 9" | "d = 10" | "d = 11" | "d = 12" | "d = 13" | "d = 14" | "d = 15"
proof -
  from assms have "d = 0 \<or> d = 1 \<or> d = 2 \<or> d = 3 \<or> d = 4 \<or> d = 5 \<or> d = 6 \<or> d = 7
    \<or> d = 8 \<or> d = 9 \<or> d = 10 \<or> d = 11 \<or> d = 12 \<or> d = 13 \<or> d = 14 \<or> d = 15"
    by arith
  then show thesis using that by blast
qed

lemma hex_value_hex_digit: "d < 16 \<Longrightarrow> hex_value (hex_digit d) = Some d"
  by (erule below_16_cases) (simp_all add: hex_digit_def hex_value_def)

lemma decode_control:
  assumes "(of_char c :: nat) < 32"
  shows "decode_uXXXX [CHR ''0'', CHR ''0'', hex_digit (of_char c div 16),
           hex_digit (of_char c mod 16)] = Some c"
proof -
  let ?n = "of_char c :: nat"
  have "hex_value (hex_digit (?n div 16)) = Some (?n div 16)"
    using assms by (intro hex_value_hex_digit) simp
  moreover have "hex_value (hex_digit (?n mod 16)) = Some (?n mod 16)"
    by (intro hex_value_hex_digit) simp
  moreover have "hex_value CHR ''0'' = Some 0" by (simp add: hex_value_def)
  moreover have "?n div 16 * 16 + ?n mod 16 = ?n" by simp
  moreover have "?n < 256" using assms by simp
  ultimately show ?thesis by (simp add: decode_uXXXX_def)
qed

lemma scanstring_escape_char:
  "scanstring (escape_char c @ s) =
     (case scanstring s of None \<Rightarrow> None | Some (t, s') \<Rightarrow> Some (c # t, s'))"
proof -
  consider "c = CHR 0x5C" | "c = CHR 0x22" | "c = CHR 0x08" | "c = CHR 0x0C" | "c = CHR 0x0A"
    | "c = CHR 0x0D" | "c = CHR 0x09"
    | "c \<noteq> CHR 0x5C" "c \<noteq> CHR 0x22" "c \<noteq> CHR 0x08" "c \<noteq> CHR 0x0C" "c \<noteq> CHR 0x0A"
      "c \<noteq> CHR 0x0D" "c \<noteq> CHR 0x09" "(of_char c :: nat) < 32"
    | "c \<noteq> CHR 0x5C" "c \<noteq> CHR 0x22" "\<not> (of_char c :: nat) < 32"
    by blast
  then show ?thesis
  proof cases
    case 8
    have "escape_char c = [CHR 0x5C, CHR ''u'', CHR ''0'', CHR ''0'',
            hex_digit (of_char c div 16), hex_digit (of_char c mod 16)]"
      using 8 by (simp add: escape_char_def)
    then show ?thesis using decode_control[OF 8(8)] by (simp add: BACKSLASH_def)
  next
    case 9
    then have "escape_char c = [c]"
      by (auto simp add: escape_char_def)
    then show ?thesis using 9 by simp
  qed (auto simp add: escape_char_def BACKSLASH_def)
qed

lemma scanstring_escaped:
  "scanstring (concat (map escape_char t) @ CHR 0x22 # rest) = Some (t, rest)"
proof (induction t)
  case Nil
  then show ?case by simp
next
  case (Cons c t)
  have "scanstring (concat (map escape_char (c # t)) @ CHR 0x22 # rest) =
          scanstring (escape_char c @ (concat (map escape_char t) @ CHR 0x22 # rest))"
    by simp
  also have "\<dots> = Some (c # t, rest)"
    unfolding scanstring_escape_char Cons.IH by simp
  finally show ?case .
qed

lemma encode_basestring_Cons:
  "py_encode_basestring t @ rest = CHR 0x22 # concat (map escape_char t) @ CHR 0x22 # rest"
  by (simp add: py_encode_basestring_def)

lemma scanstring_encoded:
  "scanstring (tl (py_encode_basestring t) @ rest) = Some (t, rest)"
  using scanstring_escaped[of t rest] by (simp add: py_encode_basestring_def)


section \<open>Reading back an encoded object\<close>

lemma skip_ws_newline_indent: "skip_ws (newline_indent n @ s) = skip_ws s"
proof -
  have "dropWhile (\<lambda>c. c \<in> set [CHR '' '', CHR 0x09, CHR 0x0A, CHR 0x0D])
          (replicate (4 * n) CHR '' '' @ s) =
        dropWhile (\<lambda>c. c \<in> set [CHR '' '', CHR 0x09, CHR 0x0A, CHR 0x0D]) s"
    by (rule dropWhile_append2) simp
  then show ?thesis by (simp add: skip_ws_def newline_indent_def)
qed

lemma skip_ws_space: "skip_ws (CHR '' '' # s) = skip_ws s"
  by (simp add: skip_ws_def)

lemma skip_ws_token:
  "skip_ws (CHR 0x22 # s) = CHR 0x22 # s"
  "skip_ws (CHR ''{'' # s) = CHR ''{'' # s"
  "skip_ws (CHR ''}'' # s) = CHR ''}'' # s"
  "skip_ws (CHR '':'' # s) = CHR '':'' # s"
  "skip_ws (CHR '','' # s) = CHR '','' # s"
  "skip_ws [] = []"
  by (simp_all add: skip_ws_def)

lemma json_encode_object:
  "dct \<noteq> [] \<Longrightarrow> json_encode level (JObject dct) =
     CHR ''{'' # newline_indent (Suc level) @ members (Suc level) dct
       @ newline_indent level @ ''}''"
  by (simp add: members_def)

lemma json_encode_head:
  "(\<exists>t. json_encode level v = CHR 0x22 # t) \<or> (\<exists>t. json_encode level v = CHR ''{'' # t)"
  by (cases v) (simp_all add: py_encode_basestring_def)

lemma skip_ws_json_encode: "skip_ws (json_encode level v @ s) = json_encode level v @ s"
  using json_encode_head[of level v] by (auto simp: skip_ws_token)

lemma members_Cons:
  "members level (kv # dct) =
     py_encode_basestring (fst kv) @ '': '' @ json_encode level (snd kv)
       @ (if dct = [] then [] else '','' @ newline_indent level @ members level dct)"
  by (cases dct) (simp_all add: members_def)

lemma members_head: "dct \<noteq> [] \<Longrightarrow> members level dct = CHR 0x22 # tl (members level dct)"
  by (cases dct) (simp_all add: members_Cons py_encode_basestring_def)

lemma json_pairs_members:
  assumes "\<And>kv n rest. kv \<in> set dct \<Longrightarrow> fuel_needed (snd kv) \<le> n \<Longrightarrow>
             scan_once n (json_encode level (snd kv) @ rest) = Some (snd kv, rest)"
    and "dct \<noteq> []"
    and "sum_list (map (\<lambda>kv. Suc (fuel_needed (snd kv))) dct) \<le> n"
  shows "json_pairs n pairs (tl (members level dct) @ newline_indent l0 @ CHR ''}'' # rest) =
           Some (JObject (dict_of_pairs (pairs @ dct)), rest)"
  using assms
proof (induction dct arbitrary: n pairs)
  case Nil
  then show ?case by simp
next
  case (Cons kv dct)
  from Cons.prems(3) obtain m where n: "n = Suc m" and m1: "fuel_needed (snd kv) \<le> m"
    and m2: "sum_list (map (\<lambda>kv. Suc (fuel_needed (snd kv))) dct) \<le> m"
    by (cases n) auto
  let ?tail = "(if dct = [] then [] else '','' @ newline_indent level @ members level dct)
                 @ newline_indent l0 @ CHR ''}'' # rest"
  have key: "scanstring (tl (members level (kv # dct)) @ newline_indent l0 @ CHR ''}'' # rest) =
               Some (fst kv, '': '' @ json_encode level (snd kv) @ ?tail)"
    using scanstring_encoded[of "fst kv" "'': '' @ json_encode level (snd kv) @ ?tail"]
    by (simp add: members_Cons py_encode_basestring_def)
  have val: "scan_once m (json_encode level (snd kv) @ ?tail) = Some (snd kv, ?tail)"
    using Cons.prems(1)[of kv m ?tail] m1 by simp
  show ?case
  proof (cases "dct = []")
    case True
    then show ?thesis
      using key val
      by (simp add: n skip_ws_token skip_ws_space skip_ws_json_encode skip_ws_newline_indent)
  next
    case False
    have rec: "json_pairs m (pairs @ [kv])
                 (tl (members level dct) @ newline_indent l0 @ CHR ''}'' # rest) =
               Some (JObject (dict_of_pairs ((pairs @ [kv]) @ dct)), rest)"
      using Cons.IH[of m "pairs @ [kv]"] Cons.prems(1) False m2 by simp
    have hd: "members level dct = CHR 0x22 # tl (members level dct)"
      using members_head[OF False] .
    have "skip_ws (newline_indent level @ members level dct @ newline_indent l0 @ CHR ''}'' # rest)
            = CHR 0x22 # tl (members level dct) @ newline_indent l0 @ CHR ''}'' # rest"
      unfolding skip_ws_newline_indent by (subst hd) (simp add: skip_ws_token)
    then show ?thesis
      using key val rec False
      by (simp add: n skip_ws_token skip_ws_space skip_ws_json_encode)
  qed
qed

lemma dict_of_pairs_distinct: "distinct (map fst dct) \<Longrightarrow> dict_of_pairs dct = dct"
  using dict_fold_distinct[of dct "[]"] by (simp add: dict_of_pairs_def)

lemma scan_once_json_encode:
  "unique_keys v \<Longrightarrow> fuel_needed v \<le> n \<Longrightarrow>
   scan_once n (json_encode level v @ rest) = Some (v, rest)"
proof (induction v arbitrary: n level rest)
  case (JString s)
  then obtain m where "n = Suc m" by (cases n) auto
  then show ?case
    using scanstring_encoded[of s rest] by (simp add: py_encode_basestring_def)
next
  case (JObject dct)
  from JObject.prems(2) obtain k where n: "n = Suc (Suc k)"
    and k: "sum_list (map (\<lambda>kv. Suc (fuel_needed (snd kv))) dct) \<le> k"
    by (cases n; cases "n - 1") auto
  show ?case
  proof (cases "dct = []")
    case True
    then show ?thesis by (simp add: n skip_ws_token)
  next
    case False
    have vals: "scan_once m (json_encode l (snd kv) @ r) = Some (snd kv, r)"
      if "kv \<in> set dct" "fuel_needed (snd kv) \<le> m" for kv m l r
    proof -
      have "snd kv \<in> Basic_BNFs.snds kv" by (cases kv) simp
      moreover have "unique_keys (snd kv)"
        using JObject.prems(1) that(1) by (simp add: list_all_iff)
      ultimately show ?thesis using JObject.IH[OF that(1)] that(2) by blast
    qed
    have pairs: "json_pairs k [] (tl (members (Suc level) dct) @ newline_indent level
                    @ CHR ''}'' # rest) = Some (JObject (dict_of_pairs ([] @ dct)), rest)"
      by (rule json_pairs_members[OF vals False k])
    have hd: "members (Suc level) dct = CHR 0x22 # tl (members (Suc level) dct)"
      by (rule members_head[OF False])
    have "skip_ws (newline_indent (Suc level) @ members (Suc level) dct
                     @ newline_indent level @ CHR ''}'' # rest) =
          CHR 0x22 # tl (members (Suc level) dct) @ newline_indent level @ CHR ''}'' # rest"
      unfolding skip_ws_newline_indent by (subst hd) (simp add: skip_ws_token)
    moreover have "dict_of_pairs dct = dct"
      using JObject.prems(1) by (simp add: dict_of_pairs_distinct)
    ultimately show ?thesis
      using pairs by (simp add: n json_encode_object[OF False] del: json_encode.simps)
  qed
qed

lemma length_py_join: "sum_list (map length xs) \<le> length (py_join sep xs)"
  by (induction sep xs rule: py_join.induct) simp_all

lemma fuel_needed_le_length: "fuel_needed v \<le> length (json_encode level v)"
proof (induction v arbitrary: level)
  case (JString s)
  then show ?case by (simp add: py_encode_basestring_def)
next
  case (JObject dct)
  show ?case
  proof (cases "dct = []")
    case True
    then show ?thesis by simp
  next
    case False
    have "Suc (fuel_needed (snd kv)) \<le>
            length (py_encode_basestring (fst kv) @ '': '' @ json_encode (Suc level) (snd kv))"
      if "kv \<in> set dct" for kv
    proof -
      have "snd kv \<in> Basic_BNFs.snds kv" by (cases kv) simp
      then have "fuel_needed (snd kv) \<le> length (json_encode (Suc level) (snd kv))"
        using JObject.IH[OF that] by blast
      then show ?thesis by simp
    qed
    then have "sum_list (map (\<lambda>kv. Suc (fuel_needed (snd kv))) dct) \<le>
               sum_list (map (\<lambda>kv. length (py_encode_basestring (fst kv) @ '': ''
                                      @ json_encode (Suc level) (snd kv))) dct)"
      by (intro sum_list_mono) simp
    also have "\<dots> \<le> length (members (Suc level) dct)"
      using length_py_join[of "map (\<lambda>kv. py_encode_basestring (fst kv) @ '': ''
                                      @ json_encode (Suc level) (snd kv)) dct"
                              "'','' @ newline_indent (Suc level)"]
      by (simp add: members_def comp_def)
    finally show ?thesis
      by (simp add: json_encode_object[OF False] newline_indent_def del: json_encode.simps)
  qed
qed

lemma json_loads_json_encode:
  assumes "unique_keys v"
  shows "json_loads (json_encode 0 v) = Some v"
proof -
  have "fuel_needed v \<le> Suc (length (json_encode 0 v))"
    using fuel_needed_le_length[of v 0] by simp
  then have "scan_once (Suc (length (json_encode 0 v))) (json_encode 0 v @ []) = Some (v, [])"
    by (rule scan_once_json_encode[OF assms])
  moreover have "skip_ws (json_encode 0 v) = json_encode 0 v"
    using skip_ws_json_encode[of 0 v "[]"] by simp
  ultimately show ?thesis by (simp add: json_loads_def skip_ws_token)
qed

lemma unique_keys_to_json:
  "distinct (map fst (metadata r)) \<Longrightarrow> unique_keys (to_json r)"
  by (simp add: to_json_def comp_def list_all_iff)

lemma to_json_inject: "to_json r' = to_json r \<Longrightarrow> r' = r"
proof -
  assume a: "to_json r' = to_json r"
  have inj: "inj (\<lambda>kv :: string \<times> string. (fst kv, JString (snd kv)))"
    by (rule injI) (simp add: prod_eq_iff)
  from a have "file_type r' = file_type r" "content r' = content r"
    "map (\<lambda>kv. (fst kv, JString (snd kv))) (metadata r') =
     map (\<lambda>kv. (fst kv, JString (snd kv))) (metadata r)"
    by (simp_all add: to_json_def)
  then have "file_type r' = file_type r" "content r' = content r" "metadata r' = metadata r"
    using inj_map_eq_map[OF inj] by auto
  then show ?thesis by simp
qed

lemma sample_record_keys: "distinct (map fst (metadata sample_record))"
  by (simp add: sample_record_def)

text \<open>
  Claim C9. For every record (a Python dictionary, so the metadata keys are distinct),
  parsing the JSON text that the folder driver writes for it succeeds and gives back the
  dictionary of that record: the same \<open>file_type\<close>, the same \<open>content\<close> and the same
  \<open>metadata\<close>; no other record has this dictionary.
\<close>

theorem json_round_trip:
  assumes "distinct (map fst (metadata r))"
  shows "json_loads (json_dumps r) = Some (to_json r)
         \<and> (\<forall>r'. json_loads (json_dumps r) = Some (to_json r') \<longrightarrow> r' = r)"
  using json_loads_json_encode[OF unique_keys_to_json[OF assms]] to_json_inject
  by (auto simp: json_dumps_def)

theorem json_round_trip_witness:
  "distinct (map fst (metadata sample_record))
   \<and> json_loads (json_dumps sample_record) =
       Some (JObject [(''file_type'', JString ''Word''),
                      (''content'', JString ''Hello World''),
                      (''metadata'', JObject [(''author'', JString ''Unknown''),
                                              (''date'', JString ''2023-10-01''),
                                              (''source'', JString ''report.docx'')])])"
  using json_round_trip[OF sample_record_keys] sample_record_keys
  by (simp add: to_json_def sample_record_def)


section \<open>The folder driver and per-file failures\<close>

lemma process_files_step:
  assumes "\<And>m. print env m = Inr ()" and "entry_is_file file = Inr b"
  shows "process_files env out (file # files) st =
     process_files env out files
       \<lparr>processed_files =
          processed_files st
            @ (if file_succeeds env out file then [path_name (entry_path file)] else []),
        written = written st @ file_output env out file,
        printed = printed st @ file_messages env out file\<rparr>"
  using assms
  by (cases st)
     (simp add: try_block_def file_succeeds_def file_output_def file_messages_def
        is_supported_file_def output_path_def Let_def
        split: sum.splits write_result.splits)

lemma process_files_console_ok:
  assumes "\<And>m. print env m = Inr ()"
    and "\<forall>file \<in> set files. \<exists>b. entry_is_file file = Inr b"
  shows "process_files env out files st =
     (\<lparr>processed_files =
         processed_files st
           @ map (\<lambda>file. path_name (entry_path file)) (filter (file_succeeds env out) files),
       written = written st @ concat (map (file_output env out) files),
       printed = printed st @ concat (map (file_messages env out) files)\<rparr>,
      None)"
  using assms(2)
proof (induction files arbitrary: st)
  case Nil
  then show ?case by (cases st) simp
next
  case (Cons entry entries)
  then obtain b where b: "entry_is_file entry = Inr b" by auto
  from Cons.prems have rest: "\<forall>file \<in> set entries. \<exists>b. entry_is_file file = Inr b" by simp
  show ?case
    unfolding process_files_step[OF assms(1) b] Cons.IH[OF rest] by simp
qed

text \<open>
  When every message can be printed and every \<^verbatim>\<open>is_file\<close> test returns, the driver
  does isolate failures: it returns, in listing order, the names of the supported regular
  files whose record was built and whose JSON file was written completely, and it has
  printed an error line for each of the others that it tried.
\<close>

lemma process_folder_console_ok:
  assumes "mkdir env output_folder = Inr ()"
    and "iterdir env folder_path = Inr files"
    and "\<And>m. print env m = Inr ()"
    and "\<forall>file \<in> set files. \<exists>b. entry_is_file file = Inr b"
  shows "process_folder env folder_path output_folder =
           (Inr (map (\<lambda>file. path_name (entry_path file))
                   (filter (file_succeeds env output_folder) files)),
            concat (map (file_output env output_folder) files),
            concat (map (file_messages env output_folder) files))"
  using assms(1,2)
  by (simp add: process_folder_def process_files_console_ok[OF assms(3,4)] no_effects_def)

text \<open>
  Claim C2 (the code departs from it). The claim says that every per-file failure is
  caught and not raised again, that the driver continues with the next file, and that a
  folder holding a valid \<^verbatim>\<open>.docx\<close> and a corrupted \<^verbatim>\<open>.pdf\<close> yields the \<^verbatim>\<open>.docx\<close> name and
  one output file. The handler of the driver prints a line starting with U+2717 outside
  any \<^verbatim>\<open>try\<close>. On a console whose encoding is ASCII, for that very folder: with the
  \<^verbatim>\<open>.pdf\<close> listed first, its extraction failure is caught, the handler's \<^verbatim>\<open>print\<close> raises,
  and the driver ends with that exception before the \<^verbatim>\<open>.docx\<close> is looked at; with the
  \<^verbatim>\<open>.docx\<close> listed first, its JSON file is written, the \<^verbatim>\<open>print\<close> of the line starting
  with U+2713 raises inside the \<^verbatim>\<open>try\<close>, the handler's \<^verbatim>\<open>print\<close> raises in turn, and the
  driver ends with that exception without returning the name. On a console that prints
  every line the same folder gives the result the claim states.
\<close>

theorem process_folder_aborts_on_ascii_console:
  "process_folder ascii_libs_pdf_first ''in'' ''output'' =
     (Inl ConsoleFailure, [], [Processing ''broken.pdf''])
   \<and> process_folder ascii_libs ''in'' ''output'' =
       (Inl ConsoleFailure,
        [(''output/report_normalized.json'', json_dumps sample_record)],
        [Processing ''report.docx''])
   \<and> process_folder sample_libs ''in'' ''output'' =
       (Inr [''report.docx''],
        [(''output/report_normalized.json'', json_dumps sample_record)],
        [Processing ''report.docx'', Saved ''output/report_normalized.json'',
         Processing ''broken.pdf'',
         ErrorProcessing ''broken.pdf'' (LibFailure ExtractionFailure)])"
  by code_simp

end
